theory Spec2Isabelle
  imports Complex_Main
begin

section \<open>Vectors and quaternions of the three.js library\<close>

text \<open>
  The kinematics module works on \<open>Vector3\<close> and \<open>Quaternion\<close> objects of three.js.
  JavaScript numbers are modelled as real numbers, so rounding, infinities and NaN are
  outside the model.  Each operation below follows the library method of the same name.
\<close>

datatype Vector3 = Vector3 (vx: real) (vy: real) (vz: real)

datatype Quaternion = Quaternion (qx: real) (qy: real) (qz: real) (qw: real)

text \<open>\<open>new Quaternion()\<close> is the identity rotation.\<close>

definition identityQ :: Quaternion where
  "identityQ = Quaternion 0 0 0 1"

definition add :: "Vector3 \<Rightarrow> Vector3 \<Rightarrow> Vector3" where
  "add a b = Vector3 (vx a + vx b) (vy a + vy b) (vz a + vz b)"

text \<open>\<open>subVectors a b\<close> is \<open>a - b\<close>; \<open>a.sub(b)\<close> is the same difference.\<close>

definition subVectors :: "Vector3 \<Rightarrow> Vector3 \<Rightarrow> Vector3" where
  "subVectors a b = Vector3 (vx a - vx b) (vy a - vy b) (vz a - vz b)"

definition multiplyScalar :: "Vector3 \<Rightarrow> real \<Rightarrow> Vector3" where
  "multiplyScalar v s = Vector3 (vx v * s) (vy v * s) (vz v * s)"

definition dot :: "Vector3 \<Rightarrow> Vector3 \<Rightarrow> real" where
  "dot a b = vx a * vx b + vy a * vy b + vz a * vz b"

definition crossVectors :: "Vector3 \<Rightarrow> Vector3 \<Rightarrow> Vector3" where
  "crossVectors a b =
     Vector3 (vy a * vz b - vz a * vy b)
             (vz a * vx b - vx a * vz b)
             (vx a * vy b - vy a * vx b)"

definition lengthSq :: "Vector3 \<Rightarrow> real" where
  "lengthSq v = vx v * vx v + vy v * vy v + vz v * vz v"

definition length_v :: "Vector3 \<Rightarrow> real" where
  "length_v v = sqrt (lengthSq v)"

text \<open>\<open>normalize_v\<close> divides by \<open>length() || 1\<close>: the zero vector stays the zero vector.\<close>

definition normalize_v :: "Vector3 \<Rightarrow> Vector3" where
  "normalize_v v =
     multiplyScalar v (1 / (if length_v v = 0 then 1 else length_v v))"

definition distanceTo :: "Vector3 \<Rightarrow> Vector3 \<Rightarrow> real" where
  "distanceTo a b = sqrt (lengthSq (subVectors a b))"

text \<open>\<open>MathUtils.clamp(value, min, max)\<close> is \<open>Math.max(min, Math.min(max, value))\<close>.\<close>

definition clamp :: "real \<Rightarrow> real \<Rightarrow> real \<Rightarrow> real" where
  "clamp val lo hi = max lo (min hi val)"

text \<open>\<open>angleTo\<close> answers \<open>\<pi>/2\<close> when one of the two vectors has length zero.\<close>

definition angleTo :: "Vector3 \<Rightarrow> Vector3 \<Rightarrow> real" where
  "angleTo a b =
     (let denominator = sqrt (lengthSq a * lengthSq b) in
      if denominator = 0 then pi / 2
      else arccos (clamp (dot a b / denominator) (- 1) 1))"

definition setFromAxisAngle :: "Vector3 \<Rightarrow> real \<Rightarrow> Quaternion" where
  "setFromAxisAngle axis angle =
     (let halfAngle = angle / 2; s = sin halfAngle in
      Quaternion (vx axis * s) (vy axis * s) (vz axis * s) (cos halfAngle))"

text \<open>\<open>a.multiply(b)\<close> is the Hamilton product \<open>a * b\<close>.\<close>

definition multiply :: "Quaternion \<Rightarrow> Quaternion \<Rightarrow> Quaternion" where
  "multiply a b =
     Quaternion
       (qx a * qw b + qw a * qx b + qy a * qz b - qz a * qy b)
       (qy a * qw b + qw a * qy b + qz a * qx b - qx a * qz b)
       (qz a * qw b + qw a * qz b + qx a * qy b - qy a * qx b)
       (qw a * qw b - qx a * qx b - qy a * qy b - qz a * qz b)"

text \<open>
  \<open>v.applyQuaternion(q)\<close>: with \<open>t = 2 * cross(q.xyz, v)\<close> the result is
  \<open>v + q.w * t + cross(q.xyz, t)\<close>.
\<close>

definition applyQuaternion :: "Vector3 \<Rightarrow> Quaternion \<Rightarrow> Vector3" where
  "applyQuaternion v q =
     (let tx = 2 * (qy q * vz v - qz q * vy v);
          ty = 2 * (qz q * vx v - qx q * vz v);
          tz = 2 * (qx q * vy v - qy q * vx v) in
      Vector3 (vx v + qw q * tx + qy q * tz - qz q * ty)
              (vy v + qw q * ty + qz q * tx - qx q * tz)
              (vz v + qw q * tz + qx q * ty - qy q * tx))"

definition lerpVectors :: "Vector3 \<Rightarrow> Vector3 \<Rightarrow> real \<Rightarrow> Vector3" where
  "lerpVectors v1 v2 alpha =
     Vector3 (vx v1 + (vx v2 - vx v1) * alpha)
             (vy v1 + (vy v2 - vy v1) * alpha)
             (vz v1 + (vz v2 - vz v1) * alpha)"

section \<open>Joints, limits and constants\<close>

record RobotJoints =
  j1 :: real
  j2 :: real
  j3 :: real
  j4 :: real
  j5 :: real
  j6 :: real

datatype jointKey = J1 | J2 | J3 | J4 | J5 | J6

fun getJoint :: "jointKey \<Rightarrow> RobotJoints \<Rightarrow> real" where
  "getJoint J1 js = j1 js"
| "getJoint J2 js = j2 js"
| "getJoint J3 js = j3 js"
| "getJoint J4 js = j4 js"
| "getJoint J5 js = j5 js"
| "getJoint J6 js = j6 js"

fun setJoint :: "jointKey \<Rightarrow> real \<Rightarrow> RobotJoints \<Rightarrow> RobotJoints" where
  "setJoint J1 v js = js\<lparr>j1 := v\<rparr>"
| "setJoint J2 v js = js\<lparr>j2 := v\<rparr>"
| "setJoint J3 v js = js\<lparr>j3 := v\<rparr>"
| "setJoint J4 v js = js\<lparr>j4 := v\<rparr>"
| "setJoint J5 v js = js\<lparr>j5 := v\<rparr>"
| "setJoint J6 v js = js\<lparr>j6 := v\<rparr>"

record limit =
  min_l :: real
  max_l :: real

fun LIMITS :: "jointKey \<Rightarrow> limit" where
  "LIMITS J1 = \<lparr>min_l = - pi, max_l = pi\<rparr>"
| "LIMITS J2 = \<lparr>min_l = - pi / 2, max_l = pi / 2\<rparr>"
| "LIMITS J3 = \<lparr>min_l = - pi / 1.5, max_l = pi / 1.5\<rparr>"
| "LIMITS J4 = \<lparr>min_l = - pi, max_l = pi\<rparr>"
| "LIMITS J5 = \<lparr>min_l = - pi / 2, max_l = pi / 2\<rparr>"
| "LIMITS J6 = \<lparr>min_l = - pi, max_l = pi\<rparr>"

definition BOX_SIZE :: real where
  "BOX_SIZE = 0.8"

definition HOME_JOINTS :: RobotJoints where
  "HOME_JOINTS = \<lparr>j1 = 0, j2 = 0.2, j3 = 0.5, j4 = 0, j5 = - 0.5, j6 = 0\<rparr>"

definition INITIAL_JOINTS :: RobotJoints where
  "INITIAL_JOINTS = \<lparr>j1 = 0, j2 = 0, j3 = 0, j4 = 0, j5 = 0, j6 = 0\<rparr>"

section \<open>Forward kinematics: \<open>calculateChain\<close>\<close>

record chain =
  positions :: "Vector3 list"
  rotations :: "Quaternion list"
  endEffector :: Vector3

definition axisY :: Vector3 where
  "axisY = Vector3 0 1 0"

definition axisZ :: Vector3 where
  "axisZ = Vector3 0 0 1"

text \<open>
  The source mutates \<open>currentPos\<close> and \<open>currentRot\<close> and pushes a clone after every
  step; here every intermediate value has its own name (\<open>p\<close> for the position,
  \<open>r\<close> for the rotation, numbered by the step that produced it).
\<close>

definition calculateChain :: "RobotJoints \<Rightarrow> chain" where
  "calculateChain joints =
     (let p1 = add (Vector3 0 0 0) (Vector3 0 1.1 0);
          r1 = multiply identityQ (setFromAxisAngle (Vector3 0 1 0) (- j1 joints));
          r2 = multiply r1 (setFromAxisAngle (Vector3 0 0 1) (j2 joints));
          p3 = add p1 (applyQuaternion (Vector3 0 4 0) r2);
          r3 = multiply r2 (setFromAxisAngle (Vector3 0 0 1) (j3 joints));
          p4 = add p3 (applyQuaternion (Vector3 0 1.5 0) r3);
          r4 = multiply r3 (setFromAxisAngle (Vector3 0 1 0) (j4 joints));
          p5 = add p4 (applyQuaternion (Vector3 0 0.2 0) r4);
          r5 = multiply r4 (setFromAxisAngle (Vector3 0 0 1) (j5 joints));
          p6 = add p5 (applyQuaternion (Vector3 0 0.8 0) r5);
          r6 = multiply r5 (setFromAxisAngle (Vector3 0 1 0) (j6 joints));
          p7 = add p6 (applyQuaternion (Vector3 0 0.5 0) r6)
      in \<lparr>positions = [p1, p1, p3, p4, p5, p6, p7],
          rotations = [r1, r2, r3, r4, r5, r6],
          endEffector = p7\<rparr>)"

section \<open>Inverse kinematics: \<open>solveIK\<close>\<close>

definition jointKeys :: "jointKey list" where
  "jointKeys = [J6, J5, J4, J3, J2, J1]"

text \<open>The \<open>switch\<close> on the key: chain index and local rotation axis of a joint.\<close>

fun jointIdx :: "jointKey \<Rightarrow> nat" where
  "jointIdx J1 = 0"
| "jointIdx J2 = 1"
| "jointIdx J3 = 2"
| "jointIdx J4 = 3"
| "jointIdx J5 = 4"
| "jointIdx J6 = 0"

fun rotAxis :: "jointKey \<Rightarrow> Vector3" where
  "rotAxis J1 = axisY"
| "rotAxis J2 = axisZ"
| "rotAxis J3 = axisZ"
| "rotAxis J4 = axisY"
| "rotAxis J5 = axisZ"
| "rotAxis J6 = axisY"

text \<open>
  The signed correction angle of one joint (source lines 116 to 149): the angle between
  the projections of pivot-to-tip and pivot-to-target onto the plane normal to the
  joint's world axis, negated when their cross product points against the axis.
\<close>

definition signedAngle :: "Vector3 \<Rightarrow> jointKey \<Rightarrow> chain \<Rightarrow> real" where
  "signedAngle targetPosition key ch =
     (let tipPos = endEffector ch;
          jointPos = positions ch ! jointIdx key;
          toEffector = normalize_v (subVectors tipPos jointPos);
          toTarget = normalize_v (subVectors targetPosition jointPos);
          parentRot = (if jointIdx key > 0 then rotations ch ! (jointIdx key - 1)
                       else identityQ);
          worldAxis = normalize_v (applyQuaternion (rotAxis key) parentRot);
          toEffectorProj = normalize_v (subVectors toEffector
                              (multiplyScalar worldAxis (dot toEffector worldAxis)));
          toTargetProj = normalize_v (subVectors toTarget
                              (multiplyScalar worldAxis (dot toTarget worldAxis)));
          angle = angleTo toEffectorProj toTargetProj;
          cross = crossVectors toEffectorProj toTargetProj
      in if dot cross worldAxis < 0 then - angle else angle)"

text \<open>
  Damping, application and clamping (source lines 151 to 176).  The first assignment
  to \<open>newVal\<close> is overwritten by both branches of the test on the key.
\<close>

definition applyAngle :: "jointKey \<Rightarrow> real \<Rightarrow> RobotJoints \<Rightarrow> RobotJoints" where
  "applyAngle key angle0 newJoints =
     (let angle = angle0 * 0.5;
          newVal0 = getJoint key newJoints + angle;
          newVal1 = (if key = J1 then getJoint key newJoints - angle
                     else getJoint key newJoints + angle);
          lim = LIMITS key;
          newVal = clamp newVal1 (min_l lim) (max_l lim)
      in setJoint key newVal newJoints)"

text \<open>
  The inner \<open>for ... of\<close> loop over the joint keys: \<open>continue\<close> on \<open>j6\<close>, \<open>break\<close>
  (leaving the remaining keys of this pass untouched) when the tip is closer than 0.01
  to the target.
\<close>

fun innerLoop :: "Vector3 \<Rightarrow> jointKey list \<Rightarrow> RobotJoints \<Rightarrow> RobotJoints" where
  "innerLoop targetPosition [] newJoints = newJoints"
| "innerLoop targetPosition (key # keys) newJoints =
     (if key = J6 then innerLoop targetPosition keys newJoints
      else
        let ch = calculateChain newJoints;
            tipPos = endEffector ch
        in if distanceTo tipPos targetPosition < 0.01 then newJoints
           else innerLoop targetPosition keys
                  (applyAngle key (signedAngle targetPosition key ch) newJoints))"

fun outerLoop :: "nat \<Rightarrow> Vector3 \<Rightarrow> RobotJoints \<Rightarrow> RobotJoints" where
  "outerLoop 0 targetPosition newJoints = newJoints"
| "outerLoop (Suc n) targetPosition newJoints =
     outerLoop n targetPosition (innerLoop targetPosition jointKeys newJoints)"

text \<open>
  \<open>iterations\<close> is an integer; the loop \<open>for (iter = 0; iter < iterations; iter++)\<close>
  runs \<open>nat iterations\<close> times, that is not at all for a count of zero or less.
\<close>

definition solveIK :: "Vector3 \<Rightarrow> RobotJoints \<Rightarrow> int \<Rightarrow> RobotJoints" where
  "solveIK targetPosition currentJoints iterations =
     outerLoop (nat iterations) targetPosition currentJoints"

definition withinLimit :: "jointKey \<Rightarrow> RobotJoints \<Rightarrow> bool" where
  "withinLimit key js \<longleftrightarrow>
     min_l (LIMITS key) \<le> getJoint key js \<and> getJoint key js \<le> max_l (LIMITS key)"

definition withinLimits :: "RobotJoints \<Rightarrow> bool" where
  "withinLimits js \<longleftrightarrow>
     withinLimit J1 js \<and> withinLimit J2 js \<and> withinLimit J3 js \<and>
     withinLimit J4 js \<and> withinLimit J5 js \<and> withinLimit J6 js"

section \<open>Notions used in the analysis of the solver\<close>

text \<open>Unit quaternions: the rotations of the chain are products of such.\<close>

definition unitQ :: "Quaternion \<Rightarrow> bool" where
  "unitQ q \<longleftrightarrow> qx q * qx q + qy q * qy q + qz q * qz q + qw q * qw q = 1"

text \<open>The rotation of \<open>e\<close> by the angle \<open>d\<close> about the unit axis \<open>n\<close>.\<close>

definition rodrigues :: "Vector3 \<Rightarrow> real \<Rightarrow> Vector3 \<Rightarrow> Vector3" where
  "rodrigues n d e =
     add (add (multiplyScalar e (cos d)) (multiplyScalar (crossVectors n e) (sin d)))
         (multiplyScalar n (dot n e * (1 - cos d)))"

text \<open>
  The angle computation of \<open>signedAngle\<close> on its three geometric inputs: the world
  axis, the vector from the pivot to the tip and the vector from the pivot to the
  target.
\<close>

definition planeAngle :: "Vector3 \<Rightarrow> Vector3 \<Rightarrow> Vector3 \<Rightarrow> real" where
  "planeAngle worldAxis e g =
     (let toEffector = normalize_v e;
          toTarget = normalize_v g;
          toEffectorProj = normalize_v (subVectors toEffector
                              (multiplyScalar worldAxis (dot toEffector worldAxis)));
          toTargetProj = normalize_v (subVectors toTarget
                              (multiplyScalar worldAxis (dot toTarget worldAxis)));
          angle = angleTo toEffectorProj toTargetProj;
          cross = crossVectors toEffectorProj toTargetProj
      in if dot cross worldAxis < 0 then - angle else angle)"

text \<open>
  A configuration within the joint limits whose tool tip is at (0, 7.9, 0), straight
  above the base: the sines and cosines of its angles are 13/85, 84/85, 8/17, 15/17.
\<close>

definition reachPose :: RobotJoints where
  "reachPose = \<lparr>j1 = 0, j2 = - arctan (13 / 84), j3 = arctan (13 / 84), j4 = 0,
                  j5 = arctan (8 / 15), j6 = 0\<rparr>"

section \<open>The simulation controller\<close>

datatype SequencePhase =
  IDLE | APPROACH | DESCEND_PICK | GRIP | LIFT_PICK | TRAVEL | DESCEND_DROP | RELEASE
  | LIFT_DROP | HOME

datatype ObjectShape = Box | Sphere | Cylinder

record SceneObject =
  obj_id :: string
  position :: "real \<times> real \<times> real"
  color :: string
  shape :: ObjectShape

text \<open>\<open>position[0]\<close>, \<open>position[1]\<close> and \<open>position[2]\<close> of a scene object.\<close>

definition pos0 :: "SceneObject \<Rightarrow> real" where
  "pos0 b = fst (position b)"

definition pos1 :: "SceneObject \<Rightarrow> real" where
  "pos1 b = fst (snd (position b))"

definition pos2 :: "SceneObject \<Rightarrow> real" where
  "pos2 b = snd (snd (position b))"

definition PICK_AREA_POS :: Vector3 where
  "PICK_AREA_POS = Vector3 4 0.05 0"

definition DROP_AREA_POS :: Vector3 where
  "DROP_AREA_POS = Vector3 (- 4) 0.05 0"

text \<open>
  The state of \<open>SimulationController\<close>.  The first group of fields is React state
  handed down as props (\<open>joints\<close>, \<open>gripperOpen\<close>, \<open>boxes\<close>, \<open>ikMode\<close>,
  \<open>ikTargetPos\<close>, \<open>runSequenceTrigger\<close>) or held by the component (\<open>phase\<close>): a
  callback reads the value of the last render, and a call of its setter takes effect
  after the callback.  The second group is the refs, written at once.  \<open>completions\<close>
  counts the calls of \<open>onSequenceComplete\<close>.  Times are the milliseconds of
  \<open>Date.now()\<close>.
\<close>

record sim =
  joints :: RobotJoints
  gripperOpen :: bool
  boxes :: "SceneObject list"
  ikMode :: bool
  ikTargetPos :: Vector3
  runSequenceTrigger :: int
  phase :: SequencePhase
  heldBoxId :: "string option"
  prevGripperOpen :: bool
  phaseStartTime :: int
  startPos :: Vector3
  endPos :: Vector3
  targetBoxId :: "string option"
  lastTrigger :: int
  completions :: nat

subsection \<open>The trigger effect\<close>

text \<open>
  The body of the \<open>useEffect\<close> hook (source lines 68 to 88); \<open>now\<close> is the value
  \<open>Date.now()\<close> returns.
\<close>

definition triggerEffect :: "int \<Rightarrow> sim \<Rightarrow> sim" where
  "triggerEffect now s =
     (if runSequenceTrigger s > lastTrigger s then
        let s1 = s\<lparr>lastTrigger := runSequenceTrigger s\<rparr> in
        case find (\<lambda>b. pos0 b > 0) (boxes s) of
          Some availableBox \<Rightarrow>
            s1\<lparr>targetBoxId := Some (obj_id availableBox),
               phase := APPROACH,
               phaseStartTime := now,
               startPos := ikTargetPos s,
               endPos := Vector3 (pos0 availableBox) (pos1 availableBox + 2)
                           (pos2 availableBox),
               gripperOpen := True\<rparr>
        | None \<Rightarrow> s1\<lparr>completions := completions s + 1\<rparr>
      else s)"

subsection \<open>The sequencer\<close>

text \<open>
  The \<open>switch\<close> on the phase (source lines 110 to 187).  \<open>snap\<close> is the render
  snapshot the callback reads \<open>phase\<close>, \<open>boxes\<close> and \<open>ikTargetPos\<close> from;
  \<open>cur\<close> is the state being written.
\<close>

definition phaseTransition ::
    "int \<Rightarrow> real \<Rightarrow> Vector3 \<Rightarrow> sim \<Rightarrow> sim \<Rightarrow> sim" where
  "phaseTransition now elapsed currentLerp snap cur =
     (case phase snap of
        APPROACH \<Rightarrow>
          (let c1 = cur\<lparr>phase := DESCEND_PICK, phaseStartTime := now,
                         startPos := currentLerp\<rparr> in
           case find (\<lambda>b. Some (obj_id b) = targetBoxId c1) (boxes snap) of
             Some box \<Rightarrow> c1\<lparr>endPos := Vector3 (pos0 box) (pos1 box + 0.2) (pos2 box)\<rparr>
           | None \<Rightarrow> c1\<lparr>phase := IDLE, completions := completions c1 + 1\<rparr>)
      | DESCEND_PICK \<Rightarrow>
          cur\<lparr>phase := GRIP, phaseStartTime := now, gripperOpen := False\<rparr>
      | GRIP \<Rightarrow>
          (if elapsed > 0.5 then
             cur\<lparr>phase := LIFT_PICK, phaseStartTime := now,
                 startPos := ikTargetPos snap,
                 endPos := add (ikTargetPos snap) (Vector3 0 3 0)\<rparr>
           else cur)
      | LIFT_PICK \<Rightarrow>
          cur\<lparr>phase := TRAVEL, phaseStartTime := now,
              startPos := ikTargetPos snap,
              endPos := Vector3 (vx DROP_AREA_POS) 3 (vz DROP_AREA_POS)\<rparr>
      | TRAVEL \<Rightarrow>
          cur\<lparr>phase := DESCEND_DROP, phaseStartTime := now,
              startPos := ikTargetPos snap,
              endPos := Vector3 (vx DROP_AREA_POS) 1 (vz DROP_AREA_POS)\<rparr>
      | DESCEND_DROP \<Rightarrow>
          cur\<lparr>phase := RELEASE, phaseStartTime := now, gripperOpen := True\<rparr>
      | RELEASE \<Rightarrow>
          (if elapsed > 0.5 then
             cur\<lparr>phase := LIFT_DROP, phaseStartTime := now,
                 startPos := ikTargetPos snap,
                 endPos := add (ikTargetPos snap) (Vector3 0 2 0)\<rparr>
           else cur)
      | LIFT_DROP \<Rightarrow>
          cur\<lparr>phase := HOME, phaseStartTime := now,
              startPos := ikTargetPos snap,
              endPos := endEffector (calculateChain HOME_JOINTS)\<rparr>
      | HOME \<Rightarrow> cur\<lparr>phase := IDLE, completions := completions cur + 1\<rparr>
      | IDLE \<Rightarrow> cur)"

text \<open>The sequence logic of one frame (source lines 92 to 189).\<close>

definition sequenceLogic :: "int \<Rightarrow> sim \<Rightarrow> sim" where
  "sequenceLogic now s =
     (if phase s \<noteq> IDLE then
        let elapsed = real_of_int (now - phaseStartTime s) / 1000;
            speed = 4.0;
            dist = distanceTo (startPos s) (endPos s);
            duration = max 0.5 (dist / speed);
            t = min 1 (elapsed / duration);
            currentLerp = lerpVectors (startPos s) (endPos s) t;
            s1 = (if phase s \<notin> {GRIP, RELEASE} then s\<lparr>ikTargetPos := currentLerp\<rparr>
                  else s)
        in if t \<ge> 1 then phaseTransition now elapsed currentLerp s s1 else s1
      else s)"

subsection \<open>The grasp and drop tracker\<close>

text \<open>JavaScript truthiness of a \<open>string | null\<close>: null and the empty string are falsy.\<close>

definition truthy :: "string option \<Rightarrow> bool" where
  "truthy v = (case v of None \<Rightarrow> False | Some i \<Rightarrow> i \<noteq> [])"

definition boxPos :: "SceneObject \<Rightarrow> Vector3" where
  "boxPos b = Vector3 (pos0 b) (pos1 b) (pos2 b)"

text \<open>
  The \<open>forEach\<close> of the grab (source lines 212 to 219), carrying \<open>closestBox\<close> and
  \<open>minDistance\<close>.
\<close>

fun grabLoop ::
    "Vector3 \<Rightarrow> SceneObject list \<Rightarrow> string option \<times> real \<Rightarrow> string option \<times> real" where
  "grabLoop tipPos [] acc = acc"
| "grabLoop tipPos (b # bs) (closestBox, minDistance) =
     (let distance = distanceTo tipPos (boxPos b) in
      if distance < minDistance then grabLoop tipPos bs (Some (obj_id b), distance)
      else grabLoop tipPos bs (closestBox, minDistance))"

text \<open>The two \<open>map\<close> callbacks of the position update (source lines 235 to 257).\<close>

definition pinBox :: "string option \<Rightarrow> Vector3 \<Rightarrow> SceneObject \<Rightarrow> SceneObject" where
  "pinBox held tipPos b =
     (if Some (obj_id b) = held then b\<lparr>position := (vx tipPos, vy tipPos, vz tipPos)\<rparr>
      else b)"

definition groundOffset :: "SceneObject \<Rightarrow> real" where
  "groundOffset b = (if shape b = Sphere then BOX_SIZE / 1.5 else BOX_SIZE / 2)"

definition fallBox :: "SceneObject \<Rightarrow> SceneObject" where
  "fallBox b =
     (if pos1 b > groundOffset b + 0.01 then
        let newY = max (groundOffset b) (pos1 b - 0.2) in
        b\<lparr>position := (pos0 b, newY, pos2 b)\<rparr>
      else b)"

text \<open>
  Gripper and physics logic of one frame (source lines 201 to 260).  \<open>tipWorld\<close> is
  the world position read from the tip of the render tree, \<open>gOpen\<close> the
  \<open>gripperOpen\<close> prop of the last render, \<open>bxs\<close> the \<open>boxes\<close> prop of the last
  render.  When no box changes, \<open>setBoxes\<close> keeps the previous list, which is equal
  to the mapped one.
\<close>

definition gripperPhysics :: "Vector3 \<Rightarrow> bool \<Rightarrow> SceneObject list \<Rightarrow> sim \<Rightarrow> sim" where
  "gripperPhysics tipWorld gOpen bxs s =
     (let tipPos = Vector3 (vx tipWorld) (vy tipWorld - 0.2) (vz tipWorld);
          s1 = (if prevGripperOpen s \<and> \<not> gOpen then
                  let closestBox = fst (grabLoop tipPos bxs (None, 1.2)) in
                  if truthy closestBox then s\<lparr>heldBoxId := closestBox\<rparr> else s
                else s);
          s2 = (if \<not> prevGripperOpen s1 \<and> gOpen then s1\<lparr>heldBoxId := None\<rparr> else s1);
          s3 = (if truthy (heldBoxId s2)
                then s2\<lparr>boxes := map (pinBox (heldBoxId s2) tipPos) (boxes s2)\<rparr>
                else s2\<lparr>boxes := map fallBox (boxes s2)\<rparr>)
      in s3\<lparr>prevGripperOpen := gOpen\<rparr>)"

text \<open>
  One frame (the \<open>useFrame\<close> callback, source lines 90 to 261): sequence logic, the
  IK solve on the target and joints of the last render, and, unless the tip of the
  render tree is missing (\<open>tip = None\<close>, the early return), the tracker.
\<close>

definition useFrame :: "int \<Rightarrow> Vector3 option \<Rightarrow> sim \<Rightarrow> sim" where
  "useFrame now tip s =
     (let s1 = sequenceLogic now s;
          s2 = (if ikMode s \<or> phase s \<noteq> IDLE
                then s1\<lparr>joints := solveIK (ikTargetPos s) (joints s) 5\<rparr> else s1)
      in case tip of
           None \<Rightarrow> s2
         | Some tipWorld \<Rightarrow> gripperPhysics tipWorld (gripperOpen s) (boxes s) s2)"

text \<open>
  The state at mount: the initial values of the \<open>useState\<close> and \<open>useRef\<close> hooks of
  \<open>App\<close>, \<open>Scene\<close> and \<open>SimulationController\<close>.
\<close>

definition initialSim :: sim where
  "initialSim =
     \<lparr>joints = INITIAL_JOINTS,
      gripperOpen = True,
      boxes = [\<lparr>obj_id = ''1'', position = (4, BOX_SIZE / 2, 0), color = ''#ef4444'',
                 shape = Box\<rparr>,
               \<lparr>obj_id = ''2'', position = (4, BOX_SIZE / 2, 1.5), color = ''#3b82f6'',
                 shape = Box\<rparr>,
               \<lparr>obj_id = ''3'', position = (4, BOX_SIZE / 2, - 1.5), color = ''#eab308'',
                 shape = Box\<rparr>],
      ikMode = False,
      ikTargetPos = Vector3 4 2 0,
      runSequenceTrigger = 0,
      phase = IDLE,
      heldBoxId = None,
      prevGripperOpen = True,
      phaseStartTime = 0,
      startPos = Vector3 0 0 0,
      endPos = Vector3 0 0 0,
      targetBoxId = None,
      lastTrigger = 0,
      completions = 0\<rparr>"

text \<open>
  A test driver: the frames of a list, each with the clock value and the tip position
  of that frame, run in order.
\<close>

definition runFrames :: "(int \<times> Vector3 option) list \<Rightarrow> sim \<Rightarrow> sim" where
  "runFrames fs s = foldl (\<lambda>st (now, tip). useFrame now tip st) s fs"

text \<open>
  The states of a sequence run: the state the trigger effect leaves when it finds an
  object and starts the sequence, and every state a later frame produces.
\<close>

inductive in_run :: "sim \<Rightarrow> bool" where
  start: "runSequenceTrigger s > lastTrigger s \<Longrightarrow>
          find (\<lambda>b. pos0 b > 0) (boxes s) = Some availableBox \<Longrightarrow>
          in_run (triggerEffect now s)"
| frame: "in_run s \<Longrightarrow> in_run (useFrame now tip s)"

subsection \<open>Example scenes\<close>

text \<open>The trigger has fired and every object lies in the drop area.\<close>

definition droppedScene :: sim where
  "droppedScene =
     initialSim\<lparr>boxes := [\<lparr>obj_id = ''1'', position = (- 4, 0.4, 0), color = ''#ef4444'',
                              shape = Box\<rparr>],
                runSequenceTrigger := 1\<rparr>"

text \<open>The trigger has fired while the gripper was closed by hand.\<close>

definition closedGripperSim :: sim where
  "closedGripperSim =
     initialSim\<lparr>gripperOpen := False, prevGripperOpen := False, runSequenceTrigger := 1\<rparr>"

text \<open>
  The trigger has fired while the gripper, closed by hand, holds object 1 in the pick
  area at height 0.8, which is 0.4 above its resting height.
\<close>

definition heldAloftSim :: sim where
  "heldAloftSim =
     initialSim\<lparr>boxes := [\<lparr>obj_id = ''1'', position = (4, 0.8, 0), color = ''#ef4444'',
                              shape = Box\<rparr>],
                gripperOpen := False, prevGripperOpen := False, heldBoxId := Some ''1'',
                runSequenceTrigger := 1\<rparr>"

text \<open>The gripper has just been closed; two objects lie near the tip.\<close>

definition graspScene :: sim where
  "graspScene =
     initialSim\<lparr>boxes := [\<lparr>obj_id = ''1'', position = (4, 0.4, - 2), color = ''#ef4444'',
                              shape = Box\<rparr>,
                            \<lparr>obj_id = ''2'', position = (4, 0.4, 0.5), color = ''#3b82f6'',
                              shape = Box\<rparr>],
                gripperOpen := False\<rparr>"

text \<open>Nothing is held and object 1 is in the air at height 3.\<close>

definition airborneScene :: sim where
  "airborneScene =
     initialSim\<lparr>boxes := [\<lparr>obj_id = ''1'', position = (4, 3, 0), color = ''#ef4444'',
                              shape = Box\<rparr>]\<rparr>"

text \<open>Object 1 is held by the closed gripper while object 2 is in the air.\<close>

definition carryScene :: sim where
  "carryScene =
     initialSim\<lparr>boxes := [\<lparr>obj_id = ''1'', position = (4, 1, 0), color = ''#ef4444'',
                              shape = Box\<rparr>,
                            \<lparr>obj_id = ''2'', position = (4, 3, 1.5), color = ''#3b82f6'',
                              shape = Box\<rparr>],
                gripperOpen := False, prevGripperOpen := False, heldBoxId := Some ''1''\<rparr>"

section \<open>Distances along one axis\<close>

lemma distanceTo_along_y:
  "distanceTo (Vector3 a b c) (Vector3 a b' c) = \<bar>b - b'\<bar>"
  by (simp add: distanceTo_def lengthSq_def subVectors_def)

lemma distanceTo_along_z:
  "distanceTo (Vector3 a b c) (Vector3 a b c') = \<bar>c - c'\<bar>"
  by (simp add: distanceTo_def lengthSq_def subVectors_def)

section \<open>Forward kinematics at the zero configuration\<close>

lemma applyQuaternion_identity [simp]: "applyQuaternion v identityQ = v"
  by (cases v) (simp add: applyQuaternion_def identityQ_def)

lemma setFromAxisAngle_zero [simp]: "setFromAxisAngle (Vector3 a b c) 0 = identityQ"
  by (simp add: setFromAxisAngle_def identityQ_def)

lemma multiply_identity [simp]: "multiply identityQ identityQ = identityQ"
  by (simp add: multiply_def identityQ_def)


text \<open>
  C2.  \<open>calculateChain\<close> at the all-zero joint configuration returns the tool-tip
  position (0, 8.1, 0), the fixed link offsets 1.1 + 4 + 1.5 + 0.2 + 0.8 + 0.5 stacked
  along the vertical axis.
\<close>

theorem calculateChain_zero_tip:
  "endEffector (calculateChain \<lparr>j1 = 0, j2 = 0, j3 = 0, j4 = 0, j5 = 0, j6 = 0\<rparr>)
     = Vector3 0 8.1 0
   \<and> (8.1 :: real) = 1.1 + 4 + 1.5 + 0.2 + 0.8 + 0.5"
  by (simp add: calculateChain_def Let_def add_def)

section \<open>Joint limits of the solver\<close>

lemma clamp_bounds: "lo \<le> hi \<Longrightarrow> lo \<le> clamp v lo hi \<and> clamp v lo hi \<le> hi"
  by (simp add: clamp_def)

lemma LIMITS_ordered: "min_l (LIMITS key) \<le> max_l (LIMITS key)"
  by (cases key) simp_all

lemma getJoint_setJoint:
  "getJoint k (setJoint k' v js) = (if k = k' then v else getJoint k js)"
  by (cases k; cases k') simp_all

lemma applyAngle_withinLimit:
  "withinLimit k js \<Longrightarrow> withinLimit k (applyAngle key a js)"
  using clamp_bounds [OF LIMITS_ordered [of key]]
  by (simp add: withinLimit_def applyAngle_def Let_def getJoint_setJoint)

lemma innerLoop_withinLimit:
  "withinLimit k js \<Longrightarrow> withinLimit k (innerLoop target keys js)"
  by (induction keys arbitrary: js) (simp_all add: Let_def applyAngle_withinLimit)

lemma outerLoop_withinLimit:
  "withinLimit k js \<Longrightarrow> withinLimit k (outerLoop n target js)"
  by (induction n arbitrary: js) (simp_all add: innerLoop_withinLimit)

lemma applyAngle_j6: "key \<noteq> J6 \<Longrightarrow> j6 (applyAngle key a js) = j6 js"
  by (cases key) (simp_all add: applyAngle_def Let_def)

lemma innerLoop_j6: "j6 (innerLoop target keys js) = j6 js"
  by (induction keys arbitrary: js) (simp_all add: Let_def applyAngle_j6)

lemma outerLoop_j6: "j6 (outerLoop n target js) = j6 js"
  by (induction n arbitrary: js) (simp_all add: innerLoop_j6)

lemma solveIK_j6: "j6 (solveIK target js n) = j6 js"
  by (simp add: solveIK_def outerLoop_j6)

text \<open>
  C1 as stated fails: the solver copies its input and clamps a joint only when it
  updates it, and it never updates \<open>j6\<close>.  With \<open>j6 = 4 > \<pi>\<close> on input, the output of
  five iterations still has \<open>j6 = 4\<close>, outside \<open>[-\<pi>, \<pi>]\<close>.
\<close>

theorem solveIK_limits_counterexample:
  "\<not> withinLimits
       (solveIK (Vector3 4 2 0) \<lparr>j1 = 0, j2 = 0, j3 = 0, j4 = 0, j5 = 0, j6 = 4\<rparr> 5)"
  using pi_less_4 by (simp add: withinLimits_def withinLimit_def solveIK_j6)

lemma applyAngle_kept_or_within:
  "getJoint k (applyAngle key a js) = getJoint k js \<or> withinLimit k (applyAngle key a js)"
  using clamp_bounds [OF LIMITS_ordered [of key]]
  by (simp add: withinLimit_def applyAngle_def Let_def getJoint_setJoint)

lemma innerLoop_kept_or_within:
  "getJoint k (innerLoop target keys js) = getJoint k js
   \<or> withinLimit k (innerLoop target keys js)"
proof (induction keys arbitrary: js)
  case Nil
  show ?case by simp
next
  case (Cons key keys)
  let ?js = "applyAngle key (signedAngle target key (calculateChain js)) js"
  have step: "getJoint k (innerLoop target keys ?js) = getJoint k js
      \<or> withinLimit k (innerLoop target keys ?js)"
    using Cons.IH [of ?js]
      applyAngle_kept_or_within [of k key "signedAngle target key (calculateChain js)" js]
      innerLoop_withinLimit [of k ?js target keys]
    by auto
  show ?case
    using step Cons.IH [of js] by (simp add: Let_def)
qed

lemma outerLoop_kept_or_within:
  "getJoint k (outerLoop n target js) = getJoint k js \<or> withinLimit k (outerLoop n target js)"
proof (induction n arbitrary: js)
  case 0
  show ?case by simp
next
  case (Suc n)
  show ?case
    using Suc.IH [of "innerLoop target jointKeys js"]
      innerLoop_kept_or_within [of k target jointKeys js]
      outerLoop_withinLimit [of k "innerLoop target jointKeys js" n target]
    by auto
qed

text \<open>
  C1, amended.  For every target position, every input JointAngles and every iteration
  count, each of the six angles in the JointAngles returned by \<open>solveIK\<close> either lies
  within that joint's configured closed range or is the input angle of that joint,
  returned as it was given; there is no precondition on the input angles.  The angle
  \<open>j6\<close> is always returned as it was given.
\<close>

theorem solveIK_within_limits:
  "(getJoint key (solveIK targetPosition currentJoints iterations) = getJoint key currentJoints
    \<or> withinLimit key (solveIK targetPosition currentJoints iterations))
   \<and> j6 (solveIK targetPosition currentJoints iterations) = j6 currentJoints"
  using outerLoop_kept_or_within [of key "nat iterations" targetPosition currentJoints]
  by (simp add: solveIK_def outerLoop_j6)

theorem solveIK_within_limits_witness:
  "getJoint J6
     (solveIK (Vector3 4 2 0) \<lparr>j1 = 0, j2 = 0, j3 = 0, j4 = 0, j5 = 0, j6 = 4\<rparr> 5) = 4
   \<and> withinLimit J2
     (solveIK (Vector3 4 2 0) \<lparr>j1 = 0, j2 = 0, j3 = 0, j4 = 0, j5 = 0, j6 = 4\<rparr> 5)"
proof -
  let ?js = "\<lparr>j1 = 0, j2 = 0, j3 = 0, j4 = 0, j5 = 0, j6 = 4\<rparr>"
  have six: "getJoint J6 (solveIK (Vector3 4 2 0) ?js 5) = 4"
    using solveIK_within_limits [of J6 "Vector3 4 2 0" ?js 5] by simp
  have "getJoint J2 (solveIK (Vector3 4 2 0) ?js 5) = 0
      \<or> withinLimit J2 (solveIK (Vector3 4 2 0) ?js 5)"
    using solveIK_within_limits [of J2 "Vector3 4 2 0" ?js 5] by simp
  then have "withinLimit J2 (solveIK (Vector3 4 2 0) ?js 5)"
    using pi_gt_zero by (auto simp: withinLimit_def)
  with six show ?thesis by simp
qed

section \<open>The per-joint update of the solver\<close>




section \<open>The solver never moves the tip away from the target\<close>

lemma unitQ_multiply: "unitQ a \<Longrightarrow> unitQ b \<Longrightarrow> unitQ (multiply a b)"
proof -
  assume a: "unitQ a" and b: "unitQ b"
  have "qx (multiply a b) * qx (multiply a b) + qy (multiply a b) * qy (multiply a b)
      + qz (multiply a b) * qz (multiply a b) + qw (multiply a b) * qw (multiply a b)
      = (qx a * qx a + qy a * qy a + qz a * qz a + qw a * qw a)
        * (qx b * qx b + qy b * qy b + qz b * qz b + qw b * qw b)"
    by (simp add: multiply_def algebra_simps)
  with a b show ?thesis by (simp add: unitQ_def)
qed

lemma apply_multiply:
  assumes "unitQ a" "unitQ b"
  shows "applyQuaternion v (multiply a b) = applyQuaternion (applyQuaternion v b) a"
proof -
  obtain ax ay az aw where a: "a = Quaternion ax ay az aw" by (cases a)
  obtain bx "by" bz bw where b: "b = Quaternion bx by bz bw" by (cases b)
  obtain x y z where v: "v = Vector3 x y z" by (cases v)
  have ua: "ax * ax + ay * ay + az * az + aw * aw = 1" using assms(1) by (simp add: unitQ_def a)
  have ub: "bx * bx + by * by + bz * bz + bw * bw = 1" using assms(2) by (simp add: unitQ_def b)
  show ?thesis
    unfolding a b v
    apply (simp add: applyQuaternion_def multiply_def Let_def)
    using ua ub
    apply (intro conjI)
      apply algebra
     apply algebra
    apply algebra
    done
qed


lemma apply_dot:
  assumes "unitQ q"
  shows "dot (applyQuaternion u q) (applyQuaternion v q) = dot u v"
proof -
  obtain a b c d where q: "q = Quaternion a b c d" by (cases q)
  obtain x y z where u: "u = Vector3 x y z" by (cases u)
  obtain x' y' z' where v: "v = Vector3 x' y' z'" by (cases v)
  have uq: "a * a + b * b + c * c + d * d = 1" using assms by (simp add: unitQ_def q)
  show ?thesis
    unfolding q u v
    apply (simp add: applyQuaternion_def dot_def Let_def)
    using uq
    apply algebra
    done
qed

lemma apply_cross:
  assumes "unitQ q"
  shows "applyQuaternion (crossVectors u v) q
       = crossVectors (applyQuaternion u q) (applyQuaternion v q)"
proof -
  obtain a b c d where q: "q = Quaternion a b c d" by (cases q)
  obtain x y z where u: "u = Vector3 x y z" by (cases u)
  obtain x' y' z' where v: "v = Vector3 x' y' z'" by (cases v)
  have uq: "a * a + b * b + c * c + d * d = 1" using assms by (simp add: unitQ_def q)
  show ?thesis
    unfolding q u v
    apply (simp add: applyQuaternion_def crossVectors_def Let_def)
    using uq
    apply (intro conjI)
      apply algebra
     apply algebra
    apply algebra
    done
qed

lemma apply_add:
  "applyQuaternion (add u v) q = add (applyQuaternion u q) (applyQuaternion v q)"
  by (simp add: applyQuaternion_def add_def Let_def algebra_simps)

lemma apply_scale:
  "applyQuaternion (multiplyScalar u k) q = multiplyScalar (applyQuaternion u q) k"
  by (simp add: applyQuaternion_def multiplyScalar_def Let_def algebra_simps)

lemma sin_cos_sq: "sin x * sin x + cos x * cos x = (1::real)"
  using sin_cos_squared_add3 [of x] by (simp add: add.commute)

lemma unitQ_axisY: "unitQ (setFromAxisAngle (Vector3 0 1 0) th)"
  by (simp add: unitQ_def setFromAxisAngle_def Let_def sin_cos_sq)

lemma unitQ_axisZ: "unitQ (setFromAxisAngle (Vector3 0 0 1) th)"
  by (simp add: unitQ_def setFromAxisAngle_def Let_def sin_cos_sq)

lemma unitQ_identity: "unitQ identityQ"
  by (simp add: unitQ_def identityQ_def)

lemma axisY_sum:
  "setFromAxisAngle (Vector3 0 1 0) (a + b)
     = multiply (setFromAxisAngle (Vector3 0 1 0) b) (setFromAxisAngle (Vector3 0 1 0) a)"
  by (simp add: setFromAxisAngle_def multiply_def Let_def add_divide_distrib sin_add cos_add
        algebra_simps)

lemma axisZ_sum:
  "setFromAxisAngle (Vector3 0 0 1) (a + b)
     = multiply (setFromAxisAngle (Vector3 0 0 1) b) (setFromAxisAngle (Vector3 0 0 1) a)"
  by (simp add: setFromAxisAngle_def multiply_def Let_def add_divide_distrib sin_add cos_add
        algebra_simps)

lemma half_angle_sc: "2 * sin (d / 2) * cos (d / 2) = sin (d::real)"
  using sin_double [of "d / 2"] by simp

lemma half_angle_s2: "1 - 2 * (sin (d / 2) * sin (d / 2)) = cos (d::real)"
  using cos_double_sin [of "d / 2"] by (simp add: power2_eq_square)

lemma rodrigues_axisY:
  "applyQuaternion x (setFromAxisAngle (Vector3 0 1 0) d) = rodrigues (Vector3 0 1 0) d x"
proof -
  obtain a b c where x: "x = Vector3 a b c" by (cases x)
  have sc: "sin (d / 2) * cos (d / 2) = sin d / 2" using half_angle_sc [of d] by simp
  have s2: "sin (d / 2) * sin (d / 2) = (1 - cos d) / 2" using half_angle_s2 [of d] by simp
  have cs: "cos (d / 2) * sin (d / 2) = sin d / 2" using sc by (simp add: mult.commute)
  show ?thesis
    unfolding x
    by (simp add: applyQuaternion_def setFromAxisAngle_def rodrigues_def Let_def add_def
          multiplyScalar_def crossVectors_def dot_def algebra_simps sc s2 cs)
       (simp add: field_simps)
qed

lemma rodrigues_axisZ:
  "applyQuaternion x (setFromAxisAngle (Vector3 0 0 1) d) = rodrigues (Vector3 0 0 1) d x"
proof -
  obtain a b c where x: "x = Vector3 a b c" by (cases x)
  have sc: "sin (d / 2) * cos (d / 2) = sin d / 2" using half_angle_sc [of d] by simp
  have s2: "sin (d / 2) * sin (d / 2) = (1 - cos d) / 2" using half_angle_s2 [of d] by simp
  have cs: "cos (d / 2) * sin (d / 2) = sin d / 2" using sc by (simp add: mult.commute)
  show ?thesis
    unfolding x
    by (simp add: applyQuaternion_def setFromAxisAngle_def rodrigues_def Let_def add_def
          multiplyScalar_def crossVectors_def dot_def algebra_simps sc s2 cs)
       (simp add: field_simps)
qed

lemma apply_rodrigues:
  assumes "unitQ P"
  shows "applyQuaternion (rodrigues a d x) P
       = rodrigues (applyQuaternion a P) d (applyQuaternion x P)"
  by (simp add: rodrigues_def apply_add apply_scale apply_cross [OF assms]
        apply_dot [OF assms])

lemma dot_rodrigues:
  "dot (rodrigues n d e) g
     = dot e g * cos d + dot (crossVectors n e) g * sin d + dot n e * (1 - cos d) * dot n g"
  by (simp add: rodrigues_def dot_def add_def multiplyScalar_def algebra_simps)

lemma gram:
  assumes "dot n n = 1"
  shows "(dot (crossVectors n e) g)\<^sup>2
       = (dot e e - (dot n e)\<^sup>2) * (dot g g - (dot n g)\<^sup>2) - (dot e g - dot n e * dot n g)\<^sup>2"
proof -
  obtain a b c where n: "n = Vector3 a b c" by (cases n)
  obtain x y z where e: "e = Vector3 x y z" by (cases e)
  obtain x' y' z' where g: "g = Vector3 x' y' z'" by (cases g)
  have un: "a * a + b * b + c * c = 1" using assms by (simp add: dot_def n)
  show ?thesis
    unfolding n e g
    apply (simp add: dot_def crossVectors_def power2_eq_square)
    using un
    apply algebra
    done
qed


lemma signedAngle_planeAngle:
  "signedAngle t key ch =
     planeAngle
       (normalize_v (applyQuaternion (rotAxis key)
          (if jointIdx key > 0 then rotations ch ! (jointIdx key - 1) else identityQ)))
       (subVectors (endEffector ch) (positions ch ! jointIdx key))
       (subVectors t (positions ch ! jointIdx key))"
  by (simp add: signedAngle_def planeAngle_def Let_def)

lemma lengthSq_dot: "lengthSq v = dot v v"
  by (simp add: lengthSq_def dot_def)

lemma lengthSq_nonneg: "0 \<le> lengthSq v"
  by (simp add: lengthSq_def)

lemma lengthSq_zero: "lengthSq v = 0 \<longleftrightarrow> v = Vector3 0 0 0"
  by (cases v) (simp add: lengthSq_def add_nonneg_eq_0_iff)

lemma length_v_zero: "length_v v = 0 \<longleftrightarrow> v = Vector3 0 0 0"
  by (simp add: length_v_def lengthSq_zero lengthSq_nonneg)

lemma length_v_pos: "v \<noteq> Vector3 0 0 0 \<Longrightarrow> 0 < length_v v"
  using length_v_zero [of v] lengthSq_nonneg [of v]
  by (simp add: length_v_def less_le)

lemma normalize_zero: "normalize_v (Vector3 0 0 0) = Vector3 0 0 0"
  by (simp add: normalize_v_def multiplyScalar_def)

lemma normalize_nonzero:
  "v \<noteq> Vector3 0 0 0 \<Longrightarrow> normalize_v v = multiplyScalar v (1 / length_v v)"
  by (simp add: normalize_v_def length_v_zero)

lemma lengthSq_scale: "lengthSq (multiplyScalar v k) = k * k * lengthSq v"
  by (simp add: lengthSq_def multiplyScalar_def algebra_simps)

lemma length_v_scale: "0 \<le> k \<Longrightarrow> length_v (multiplyScalar v k) = k * length_v v"
  by (simp add: length_v_def lengthSq_scale real_sqrt_mult)

lemma scale_zero_iff:
  "k \<noteq> 0 \<Longrightarrow> multiplyScalar v k = Vector3 0 0 0 \<longleftrightarrow> v = Vector3 0 0 0"
  by (cases v) (simp add: multiplyScalar_def)

lemma scale_scale: "multiplyScalar (multiplyScalar v a) b = multiplyScalar v (a * b)"
  by (simp add: multiplyScalar_def algebra_simps)

lemma normalize_scale:
  assumes "0 < k"
  shows "normalize_v (multiplyScalar v k) = normalize_v v"
proof (cases "v = Vector3 0 0 0")
  case True
  then show ?thesis by (simp add: multiplyScalar_def normalize_zero)
next
  case False
  then have nz: "multiplyScalar v k \<noteq> Vector3 0 0 0"
    using assms by (simp add: scale_zero_iff)
  have lp: "0 < length_v v" using False by (rule length_v_pos)
  show ?thesis
    using assms lp False nz
    by (simp add: normalize_nonzero length_v_scale scale_scale)
qed

lemma normalize_unit_length:
  "lengthSq v = 1 \<Longrightarrow> normalize_v v = v"
  by (cases v) (simp add: normalize_v_def length_v_def multiplyScalar_def)


lemma normalize_is_scale: "\<exists>k>0. normalize_v v = multiplyScalar v k"
proof (cases "length_v v = 0")
  case True
  then show ?thesis by (intro exI [of _ 1]) (simp add: normalize_v_def)
next
  case False
  then have "0 < length_v v"
    using length_v_pos [of v] by (simp add: length_v_zero)
  with False show ?thesis
    by (intro exI [of _ "1 / length_v v"]) (simp add: normalize_v_def)
qed

lemma proj_scale:
  "subVectors (multiplyScalar e k) (multiplyScalar n (dot (multiplyScalar e k) n))
     = multiplyScalar (subVectors e (multiplyScalar n (dot e n))) k"
  by (simp add: subVectors_def multiplyScalar_def dot_def algebra_simps)

lemma proj_normalize:
  "normalize_v (subVectors (normalize_v e) (multiplyScalar n (dot (normalize_v e) n)))
     = normalize_v (subVectors e (multiplyScalar n (dot e n)))"
proof -
  obtain k where k: "0 < k" "normalize_v e = multiplyScalar e k"
    using normalize_is_scale [of e] by blast
  show ?thesis
    unfolding k(2) proj_scale by (rule normalize_scale [OF k(1)])
qed

lemma perp_lengthSq:
  assumes "dot n n = 1"
  shows "lengthSq (subVectors e (multiplyScalar n (dot e n))) = dot e e - (dot n e)\<^sup>2"
proof -
  obtain a b c where n: "n = Vector3 a b c" by (cases n)
  obtain x y z where e: "e = Vector3 x y z" by (cases e)
  have un: "a * a + b * b + c * c = 1" using assms by (simp add: dot_def n)
  show ?thesis
    unfolding n e
    apply (simp add: dot_def lengthSq_def subVectors_def multiplyScalar_def power2_eq_square)
    using un
    apply algebra
    done
qed

lemma perp_dot:
  assumes "dot n n = 1"
  shows "dot (subVectors e (multiplyScalar n (dot e n)))
             (subVectors g (multiplyScalar n (dot g n)))
       = dot e g - dot n e * dot n g"
proof -
  obtain a b c where n: "n = Vector3 a b c" by (cases n)
  obtain x y z where e: "e = Vector3 x y z" by (cases e)
  obtain x' y' z' where g: "g = Vector3 x' y' z'" by (cases g)
  have un: "a * a + b * b + c * c = 1" using assms by (simp add: dot_def n)
  show ?thesis
    unfolding n e g
    apply (simp add: dot_def subVectors_def multiplyScalar_def)
    using un
    apply algebra
    done
qed

lemma perp_cross:
  "dot (crossVectors (subVectors e (multiplyScalar n (dot e n)))
                     (subVectors g (multiplyScalar n (dot g n)))) n
     = dot (crossVectors n e) g"
  by (simp add: dot_def subVectors_def multiplyScalar_def crossVectors_def algebra_simps)

lemma angleTo_zero_left: "angleTo (Vector3 0 0 0) v = pi / 2"
  by (simp add: angleTo_def lengthSq_def)

lemma angleTo_zero_right: "angleTo u (Vector3 0 0 0) = pi / 2"
  by (simp add: angleTo_def lengthSq_def)

lemma angleTo_unit:
  "lengthSq u = 1 \<Longrightarrow> lengthSq v = 1 \<Longrightarrow> angleTo u v = arccos (clamp (dot u v) (- 1) 1)"
  by (simp add: angleTo_def)

lemma angleTo_range: "0 \<le> angleTo u v \<and> angleTo u v \<le> pi"
proof -
  have "- 1 \<le> clamp c (- 1) 1 \<and> clamp c (- 1) 1 \<le> 1" for c :: real
    by (simp add: clamp_def)
  then show ?thesis
    by (simp add: angleTo_def Let_def arccos_lbound arccos_ubound)
qed

lemma planeAngle_range: "\<bar>planeAngle n e g\<bar> \<le> pi"
proof -
  obtain u v where "planeAngle n e g = angleTo u v \<or> planeAngle n e g = - angleTo u v"
    by (simp add: planeAngle_def Let_def) metis
  with angleTo_range [of u v] show ?thesis by auto
qed


lemma normalize_lengthSq:
  assumes "v \<noteq> Vector3 0 0 0"
  shows "lengthSq (normalize_v v) = 1"
proof -
  have p: "0 < lengthSq v"
    using assms lengthSq_zero [of v] lengthSq_nonneg [of v] by (simp add: less_le)
  have "lengthSq (normalize_v v) = (1 / length_v v) * (1 / length_v v) * lengthSq v"
    using assms by (simp add: normalize_nonzero lengthSq_scale)
  also have "\<dots> = lengthSq v / (length_v v * length_v v)"
    by simp
  also have "length_v v * length_v v = lengthSq v"
    using p by (simp add: length_v_def)
  finally show ?thesis using p by simp
qed

lemma dot_scale: "dot (multiplyScalar u a) (multiplyScalar v b) = a * b * dot u v"
  by (simp add: dot_def multiplyScalar_def algebra_simps)

lemma cross_scale:
  "crossVectors (multiplyScalar u a) (multiplyScalar v b)
     = multiplyScalar (crossVectors u v) (a * b)"
  by (simp add: crossVectors_def multiplyScalar_def algebra_simps)

lemma dot_scale_left: "dot (multiplyScalar u a) v = a * dot u v"
  by (simp add: dot_def multiplyScalar_def algebra_simps)

lemma planeAngle_cos_sin:
  assumes un: "dot n n = 1"
  shows "dot e g - dot n e * dot n g
           = sqrt ((dot e e - (dot n e)\<^sup>2) * (dot g g - (dot n g)\<^sup>2))
             * cos (planeAngle n e g)
       \<and> dot (crossVectors n e) g
           = sqrt ((dot e e - (dot n e)\<^sup>2) * (dot g g - (dot n g)\<^sup>2))
             * sin (planeAngle n e g)"
proof -
  let ?E = "subVectors e (multiplyScalar n (dot e n))"
  let ?G = "subVectors g (multiplyScalar n (dot g n))"
  define a2 where "a2 = dot e e - (dot n e)\<^sup>2"
  define b2 where "b2 = dot g g - (dot n g)\<^sup>2"
  define A where "A = dot e g - dot n e * dot n g"
  define B where "B = dot (crossVectors n e) g"
  define r where "r = sqrt (a2 * b2)"
  have a2: "lengthSq ?E = a2" unfolding a2_def by (rule perp_lengthSq [OF un])
  have b2: "lengthSq ?G = b2" unfolding b2_def by (rule perp_lengthSq [OF un])
  have a2n: "0 \<le> a2" using lengthSq_nonneg [of ?E] a2 by simp
  have b2n: "0 \<le> b2" using lengthSq_nonneg [of ?G] b2 by simp
  have gr: "B\<^sup>2 = a2 * b2 - A\<^sup>2"
    unfolding B_def a2_def b2_def A_def by (rule gram [OF un])
  have pa: "planeAngle n e g =
      (if dot (crossVectors (normalize_v ?E) (normalize_v ?G)) n < 0
       then - angleTo (normalize_v ?E) (normalize_v ?G)
       else angleTo (normalize_v ?E) (normalize_v ?G))"
    by (simp add: planeAngle_def Let_def proj_normalize)
  have goal: "A = r * cos (planeAngle n e g) \<and> B = r * sin (planeAngle n e g)"
  proof (cases "a2 = 0 \<or> b2 = 0")
    case True
    then have r0: "a2 * b2 = 0" by auto
    with gr have "A\<^sup>2 + B\<^sup>2 = 0" by simp
    then have "A = 0 \<and> B = 0"
      by (simp add: sum_power2_eq_zero_iff)
    with r0 show ?thesis by (simp add: r_def)
  next
    case False
    with a2n b2n have ap: "0 < a2" and bp: "0 < b2" by auto
    have En: "?E \<noteq> Vector3 0 0 0" using ap a2 lengthSq_zero [of ?E] by auto
    have Gn: "?G \<noteq> Vector3 0 0 0" using bp b2 lengthSq_zero [of ?G] by auto
    have lE: "length_v ?E = sqrt a2" by (simp add: length_v_def a2)
    have lG: "length_v ?G = sqrt b2" by (simp add: length_v_def b2)
    have rp: "0 < r" using ap bp by (simp add: r_def)
    have rr: "sqrt a2 * sqrt b2 = r" by (simp add: r_def real_sqrt_mult)
    have r2: "r\<^sup>2 = a2 * b2" using ap bp by (simp add: r_def)
    have nE: "normalize_v ?E = multiplyScalar ?E (1 / sqrt a2)"
      using En by (simp add: normalize_nonzero lE)
    have nG: "normalize_v ?G = multiplyScalar ?G (1 / sqrt b2)"
      using Gn by (simp add: normalize_nonzero lG)
    have pd: "dot ?E ?G = A" unfolding A_def by (rule perp_dot [OF un])
    have pc: "dot (crossVectors ?E ?G) n = B" unfolding B_def by (rule perp_cross)
    have duv: "dot (normalize_v ?E) (normalize_v ?G) = A / r"
      unfolding nE nG dot_scale pd using rr by simp
    have cuv: "dot (crossVectors (normalize_v ?E) (normalize_v ?G)) n = B / r"
      unfolding nE nG cross_scale dot_scale_left pc using rr by simp
    have Ale: "A\<^sup>2 \<le> r\<^sup>2"
    proof -
      have "0 \<le> B\<^sup>2" by simp
      with gr have "A\<^sup>2 \<le> a2 * b2" by simp
      then show ?thesis using r2 by simp
    qed
    then have "\<bar>A\<bar> \<le> r"
      using rp by (simp add: abs_le_square_iff [symmetric])
    then have c1: "- 1 \<le> A / r" and c2: "A / r \<le> 1"
      using rp by (simp_all add: field_simps abs_le_iff)
    have cl: "clamp (A / r) (- 1) 1 = A / r"
      using c1 c2 by (simp add: clamp_def)
    have ang: "angleTo (normalize_v ?E) (normalize_v ?G) = arccos (A / r)"
      using angleTo_unit [OF normalize_lengthSq [OF En] normalize_lengthSq [OF Gn]]
      by (simp add: duv cl)
    have cosv: "cos (arccos (A / r)) = A / r"
      using c1 c2 by (simp add: cos_arccos)
    have sinv: "sin (arccos (A / r)) = sqrt (1 - (A / r)\<^sup>2)"
      using c1 c2 by (simp add: sin_arccos)
    have "r * sqrt (1 - (A / r)\<^sup>2) = sqrt (r\<^sup>2 * (1 - (A / r)\<^sup>2))"
      using rp by (simp add: real_sqrt_mult)
    also have "r\<^sup>2 * (1 - (A / r)\<^sup>2) = r\<^sup>2 - A\<^sup>2"
      using rp by (simp add: field_simps power2_eq_square)
    also have "\<dots> = B\<^sup>2"
      using gr r2 by simp
    finally have rs: "r * sin (arccos (A / r)) = \<bar>B\<bar>"
      by (simp add: sinv)
    have rc: "r * cos (arccos (A / r)) = A"
      using rp by (simp add: cosv)
    have sgn: "(B / r < 0) = (B < 0)"
      using rp by (simp add: divide_less_0_iff)
    show ?thesis
    proof (cases "B < 0")
      case True
      then have "planeAngle n e g = - arccos (A / r)"
        by (simp add: pa cuv sgn ang)
      with rs rc True show ?thesis by simp
    next
      case False
      then have "planeAngle n e g = arccos (A / r)"
        by (simp add: pa cuv sgn ang)
      with rs rc False show ?thesis by simp
    qed
  qed
  then show ?thesis
    unfolding A_def B_def r_def a2_def b2_def .
qed


lemma rotate_closer:
  assumes un: "dot n n = 1"
    and d: "(0 \<le> d \<and> d \<le> planeAngle n e g / 2) \<or> (planeAngle n e g / 2 \<le> d \<and> d \<le> 0)"
  shows "dot e g \<le> dot (rodrigues n d e) g"
proof -
  define psi where "psi = planeAngle n e g"
  define r where "r = sqrt ((dot e e - (dot n e)\<^sup>2) * (dot g g - (dot n g)\<^sup>2))"
  define A where "A = dot e g - dot n e * dot n g"
  define B where "B = dot (crossVectors n e) g"
  have AB: "A = r * cos psi" "B = r * sin psi"
    using planeAngle_cos_sin [OF un, of e g] by (simp_all add: A_def B_def r_def psi_def)
  have "0 \<le> dot e e - (dot n e)\<^sup>2"
    using lengthSq_nonneg [of "subVectors e (multiplyScalar n (dot e n))"]
    by (simp add: perp_lengthSq [OF un])
  moreover have "0 \<le> dot g g - (dot n g)\<^sup>2"
    using lengthSq_nonneg [of "subVectors g (multiplyScalar n (dot g n))"]
    by (simp add: perp_lengthSq [OF un])
  ultimately have r0: "0 \<le> r" by (simp add: r_def)
  have rng: "\<bar>psi\<bar> \<le> pi" unfolding psi_def by (rule planeAngle_range)
  have "dot (rodrigues n d e) g - dot e g = A * (cos d - 1) + B * sin d"
    by (simp add: dot_rodrigues A_def B_def algebra_simps)
  also have "\<dots> = r * (cos (psi - d) - cos psi)"
    by (simp add: AB cos_diff algebra_simps)
  finally have eq: "dot (rodrigues n d e) g - dot e g = r * (cos (psi - d) - cos psi)" .
  have "cos psi \<le> cos (psi - d)"
  proof (cases "0 \<le> d \<and> d \<le> psi / 2")
    case True
    then have "0 \<le> psi - d" "psi - d \<le> psi" "psi \<le> pi"
      using rng by auto
    then show ?thesis by (rule cos_monotone_0_pi_le)
  next
    case False
    with d have dd: "psi / 2 \<le> d" "d \<le> 0" by (auto simp: psi_def)
    then have "0 \<le> d - psi" "d - psi \<le> - psi" "- psi \<le> pi"
      using rng by auto
    then have "cos (- psi) \<le> cos (d - psi)" by (rule cos_monotone_0_pi_le)
    moreover have "cos (d - psi) = cos (psi - d)"
      using cos_minus [of "psi - d"] by simp
    ultimately show ?thesis by simp
  qed
  then have "0 \<le> r * (cos (psi - d) - cos psi)"
    using r0 by simp
  with eq show ?thesis by simp
qed

lemma sub_add_cancel_v: "subVectors (add p e) p = e"
  by (cases e) (simp add: subVectors_def add_def)

lemma lengthSq_shift:
  "lengthSq (subVectors (add p e) t)
     = lengthSq e - 2 * dot e (subVectors t p) + lengthSq (subVectors t p)"
  by (simp add: lengthSq_def subVectors_def add_def dot_def algebra_simps)

lemma apply_lengthSq: "unitQ q \<Longrightarrow> lengthSq (applyQuaternion v q) = lengthSq v"
  by (simp add: lengthSq_dot apply_dot)

lemma unitQ_axis:
  "a = Vector3 0 1 0 \<or> a = Vector3 0 0 1 \<Longrightarrow> unitQ (setFromAxisAngle a th)"
  using unitQ_axisY unitQ_axisZ by auto

lemma axis_sum:
  "a = Vector3 0 1 0 \<or> a = Vector3 0 0 1 \<Longrightarrow>
   setFromAxisAngle a (x + y) = multiply (setFromAxisAngle a y) (setFromAxisAngle a x)"
  using axisY_sum axisZ_sum by auto

lemma rodrigues_axis:
  "a = Vector3 0 1 0 \<or> a = Vector3 0 0 1 \<Longrightarrow>
   applyQuaternion x (setFromAxisAngle a d) = rodrigues a d x"
  using rodrigues_axisY rodrigues_axisZ by auto

lemma ccd_step:
  assumes P: "unitQ P"
    and a: "a = Vector3 0 1 0 \<or> a = Vector3 0 0 1"
    and d: "(0 \<le> d \<and>
             d \<le> planeAngle (normalize_v (applyQuaternion a P))
                   (subVectors (add p (applyQuaternion w
                      (multiply P (setFromAxisAngle a phi)))) p)
                   (subVectors t p) / 2)
          \<or> (planeAngle (normalize_v (applyQuaternion a P))
                   (subVectors (add p (applyQuaternion w
                      (multiply P (setFromAxisAngle a phi)))) p)
                   (subVectors t p) / 2 \<le> d \<and> d \<le> 0)"
  shows "distanceTo (add p (applyQuaternion w (multiply P (setFromAxisAngle a (phi + d))))) t
       \<le> distanceTo (add p (applyQuaternion w (multiply P (setFromAxisAngle a phi)))) t"
proof -
  define n where "n = applyQuaternion a P"
  define x where "x = applyQuaternion w (setFromAxisAngle a phi)"
  define e where "e = applyQuaternion x P"
  define g where "g = subVectors t p"
  have ua: "dot a a = 1" using a by (auto simp: dot_def)
  have un: "dot n n = 1" unfolding n_def by (simp add: apply_dot [OF P] ua)
  then have nn: "normalize_v n = n"
    by (simp add: normalize_unit_length lengthSq_dot)
  have Q: "unitQ (setFromAxisAngle a th)" for th by (rule unitQ_axis [OF a])
  have e1: "applyQuaternion w (multiply P (setFromAxisAngle a phi)) = e"
    by (simp add: apply_multiply [OF P Q] e_def x_def)
  have "applyQuaternion w (setFromAxisAngle a (phi + d))
      = applyQuaternion w (multiply (setFromAxisAngle a d) (setFromAxisAngle a phi))"
    by (simp only: axis_sum [OF a])
  also have "\<dots> = applyQuaternion x (setFromAxisAngle a d)"
    unfolding x_def by (rule apply_multiply [OF Q Q])
  also have "\<dots> = rodrigues a d x"
    by (rule rodrigues_axis [OF a])
  finally have x2: "applyQuaternion w (setFromAxisAngle a (phi + d)) = rodrigues a d x" .
  have "applyQuaternion w (multiply P (setFromAxisAngle a (phi + d)))
      = applyQuaternion (rodrigues a d x) P"
    unfolding x2 [symmetric] by (rule apply_multiply [OF P Q])
  also have "\<dots> = rodrigues n d e"
    unfolding n_def e_def by (rule apply_rodrigues [OF P])
  finally have e2: "applyQuaternion w (multiply P (setFromAxisAngle a (phi + d)))
      = rodrigues n d e" .
  have l1: "lengthSq e = lengthSq w"
    unfolding e1 [symmetric] by (rule apply_lengthSq [OF unitQ_multiply [OF P Q]])
  have l2: "lengthSq (rodrigues n d e) = lengthSq w"
    unfolding e2 [symmetric] by (rule apply_lengthSq [OF unitQ_multiply [OF P Q]])
  have d': "(0 \<le> d \<and> d \<le> planeAngle n e g / 2) \<or> (planeAngle n e g / 2 \<le> d \<and> d \<le> 0)"
    using d unfolding e1 sub_add_cancel_v n_def [symmetric] nn g_def [symmetric] .
  have "dot e g \<le> dot (rodrigues n d e) g"
    by (rule rotate_closer [OF un d'])
  then have "lengthSq (subVectors (add p (rodrigues n d e)) t)
      \<le> lengthSq (subVectors (add p e) t)"
    by (simp add: lengthSq_shift l1 l2 g_def)
  then show ?thesis
    unfolding e1 e2 distanceTo_def by simp
qed


lemma add_assoc_v: "add (add a b) c = add a (add b c)"
  by (simp add: add_def)

lemmas unit_simps = unitQ_multiply unitQ_axisY unitQ_axisZ unitQ_identity

lemmas chain_simps = calculateChain_def Let_def axisY_def axisZ_def apply_multiply
  apply_add add_assoc_v unit_simps

lemma chain_shape:
  assumes "key \<noteq> J6"
  shows "\<exists>p P w. unitQ P \<and>
    (\<forall>v. positions (calculateChain (setJoint key v js)) ! jointIdx key = p
       \<and> (if jointIdx key > 0
           then rotations (calculateChain (setJoint key v js)) ! (jointIdx key - 1)
           else identityQ) = P
       \<and> endEffector (calculateChain (setJoint key v js))
           = add p (applyQuaternion w
               (multiply P (setFromAxisAngle (rotAxis key) (if key = J1 then - v else v)))))"
proof -
  define q1 where "q1 = setFromAxisAngle (Vector3 0 1 0) (- j1 js)"
  define q2 where "q2 = setFromAxisAngle (Vector3 0 0 1) (j2 js)"
  define q3 where "q3 = setFromAxisAngle (Vector3 0 0 1) (j3 js)"
  define q4 where "q4 = setFromAxisAngle (Vector3 0 1 0) (j4 js)"
  define q5 where "q5 = setFromAxisAngle (Vector3 0 0 1) (j5 js)"
  define q6 where "q6 = setFromAxisAngle (Vector3 0 1 0) (j6 js)"
  define w5 where "w5 = add (Vector3 0 0.8 0) (applyQuaternion (Vector3 0 0.5 0) q6)"
  define w4 where "w4 = add (Vector3 0 0.2 0) (applyQuaternion w5 q5)"
  define w3 where "w3 = add (Vector3 0 1.5 0) (applyQuaternion w4 q4)"
  define w2 where "w2 = add (Vector3 0 4 0) (applyQuaternion w3 q3)"
  define w1 where "w1 = applyQuaternion w2 q2"
  have u [simp]: "unitQ q1" "unitQ q2" "unitQ q3" "unitQ q4" "unitQ q5" "unitQ q6"
    by (simp_all add: q1_def q2_def q3_def q4_def q5_def q6_def unit_simps)
  note defs = q1_def [symmetric] q2_def [symmetric] q3_def [symmetric] q4_def [symmetric]
    q5_def [symmetric] q6_def [symmetric]
  show ?thesis
  proof (cases key)
    case J1
    show ?thesis
      apply (rule exI [of _ "Vector3 0 1.1 0"])
      apply (rule exI [of _ "identityQ"])
      apply (rule exI [of _ w1])
      apply (simp add: J1 chain_simps defs w1_def w2_def w3_def w4_def w5_def add_def [of "Vector3 0 0 0"])
      done
  next
    case J2
    show ?thesis
      apply (rule exI [of _ "Vector3 0 1.1 0"])
      apply (rule exI [of _ "multiply identityQ q1"])
      apply (rule exI [of _ w2])
      apply (simp add: J2 chain_simps defs w2_def w3_def w4_def w5_def add_def [of "Vector3 0 0 0"])
      done
  next
    case J3
    show ?thesis
      apply (rule exI [of _ "add (Vector3 0 1.1 0)
          (applyQuaternion (Vector3 0 4 0) (multiply (multiply identityQ q1) q2))"])
      apply (rule exI [of _ "multiply (multiply identityQ q1) q2"])
      apply (rule exI [of _ w3])
      apply (simp add: J3 chain_simps defs w3_def w4_def w5_def add_def [of "Vector3 0 0 0"])
      done
  next
    case J4
    show ?thesis
      apply (rule exI [of _ "add (add (Vector3 0 1.1 0)
          (applyQuaternion (Vector3 0 4 0) (multiply (multiply identityQ q1) q2)))
          (applyQuaternion (Vector3 0 1.5 0)
             (multiply (multiply (multiply identityQ q1) q2) q3))"])
      apply (rule exI [of _ "multiply (multiply (multiply identityQ q1) q2) q3"])
      apply (rule exI [of _ w4])
      apply (simp add: J4 chain_simps defs w4_def w5_def add_def [of "Vector3 0 0 0"])
      done
  next
    case J5
    show ?thesis
      apply (rule exI [of _ "add (add (add (Vector3 0 1.1 0)
          (applyQuaternion (Vector3 0 4 0) (multiply (multiply identityQ q1) q2)))
          (applyQuaternion (Vector3 0 1.5 0)
             (multiply (multiply (multiply identityQ q1) q2) q3)))
          (applyQuaternion (Vector3 0 0.2 0)
             (multiply (multiply (multiply (multiply identityQ q1) q2) q3) q4))"])
      apply (rule exI [of _ "multiply (multiply (multiply (multiply identityQ q1) q2) q3) q4"])
      apply (rule exI [of _ w5])
      apply (simp add: J5 chain_simps defs w5_def add_def [of "Vector3 0 0 0"])
      done
  next
    case J6
    with assms show ?thesis by simp
  qed
qed


lemma setJoint_getJoint: "setJoint key (getJoint key js) js = js"
  by (cases key) simp_all

lemma rotAxis_cases: "rotAxis key = Vector3 0 1 0 \<or> rotAxis key = Vector3 0 0 1"
  by (cases key) (simp_all add: axisY_def axisZ_def)

lemma clamp_between:
  assumes "lo \<le> th" "th \<le> hi"
  shows "(0 \<le> clamp (th + c) lo hi - th \<and> clamp (th + c) lo hi - th \<le> c)
       \<or> (c \<le> clamp (th + c) lo hi - th \<and> clamp (th + c) lo hi - th \<le> 0)"
  using assms by (auto simp: clamp_def max_def min_def)

lemma applyAngle_closer:
  assumes key: "key \<noteq> J6" and lim: "withinLimit key js"
  shows "distanceTo (endEffector (calculateChain
             (applyAngle key (signedAngle t key (calculateChain js)) js))) t
       \<le> distanceTo (endEffector (calculateChain js)) t"
proof -
  define a where "a = rotAxis key"
  define th where "th = getJoint key js"
  define psi where "psi = signedAngle t key (calculateChain js)"
  define lo where "lo = min_l (LIMITS key)"
  define hi where "hi = max_l (LIMITS key)"
  define th' where "th' = clamp (if key = J1 then th - psi * 0.5 else th + psi * 0.5) lo hi"
  from chain_shape [OF key, of js] obtain p P w where P: "unitQ P"
    and sh: "\<And>v. positions (calculateChain (setJoint key v js)) ! jointIdx key = p
       \<and> (if jointIdx key > 0
           then rotations (calculateChain (setJoint key v js)) ! (jointIdx key - 1)
           else identityQ) = P
       \<and> endEffector (calculateChain (setJoint key v js))
           = add p (applyQuaternion w
               (multiply P (setFromAxisAngle a (if key = J1 then - v else v))))"
    unfolding a_def by blast
  have ax: "a = Vector3 0 1 0 \<or> a = Vector3 0 0 1"
    unfolding a_def by (rule rotAxis_cases)
  define phi where "phi = (if key = J1 then - th else th)"
  define d where "d = (if key = J1 then - th' else th') - phi"
  have cur: "positions (calculateChain js) ! jointIdx key = p"
    "(if jointIdx key > 0 then rotations (calculateChain js) ! (jointIdx key - 1)
      else identityQ) = P"
    "endEffector (calculateChain js)
       = add p (applyQuaternion w (multiply P (setFromAxisAngle a phi)))"
    using sh [of th, unfolded th_def setJoint_getJoint] by (simp_all add: th_def phi_def)
  have new: "endEffector (calculateChain (setJoint key th' js))
       = add p (applyQuaternion w (multiply P (setFromAxisAngle a (phi + d))))"
    using sh [of th'] by (simp add: d_def)
  have step: "applyAngle key psi js = setJoint key th' js"
    by (simp add: applyAngle_def Let_def th'_def th_def lo_def hi_def)
  have psi: "psi = planeAngle (normalize_v (applyQuaternion a P))
      (subVectors (add p (applyQuaternion w (multiply P (setFromAxisAngle a phi)))) p)
      (subVectors t p)"
    unfolding psi_def signedAngle_planeAngle cur a_def [symmetric] ..
  have inl: "lo \<le> th" "th \<le> hi"
    using lim by (simp_all add: withinLimit_def lo_def hi_def th_def)
  have btw: "(0 \<le> d \<and> d \<le> psi / 2) \<or> (psi / 2 \<le> d \<and> d \<le> 0)"
  proof (cases "key = J1")
    case True
    from clamp_between [OF inl, of "- (psi / 2)"] True show ?thesis
      by (auto simp: d_def phi_def th'_def)
  next
    case False
    from clamp_between [OF inl, of "psi / 2"] False show ?thesis
      by (auto simp: d_def phi_def th'_def)
  qed
  have "distanceTo (add p (applyQuaternion w (multiply P (setFromAxisAngle a (phi + d))))) t
      \<le> distanceTo (add p (applyQuaternion w (multiply P (setFromAxisAngle a phi)))) t"
    by (rule ccd_step [OF P ax]) (use btw psi in simp)
  then show ?thesis
    unfolding psi_def [symmetric] step new cur(3) .
qed

lemma withinLimits_all: "withinLimits js \<Longrightarrow> withinLimit key js"
  by (cases key) (simp_all add: withinLimits_def)

lemma withinLimits_applyAngle: "withinLimits js \<Longrightarrow> withinLimits (applyAngle key a js)"
  by (simp add: withinLimits_def applyAngle_withinLimit)

lemma innerLoop_closer:
  "withinLimits js \<Longrightarrow>
   distanceTo (endEffector (calculateChain (innerLoop t keys js))) t
     \<le> distanceTo (endEffector (calculateChain js)) t"
proof (induction keys arbitrary: js)
  case Nil
  then show ?case by simp
next
  case (Cons key keys)
  show ?case
  proof (cases "key = J6 \<or> distanceTo (endEffector (calculateChain js)) t < 0.01")
    case True
    with Cons show ?thesis by (auto simp: Let_def)
  next
    case False
    let ?js = "applyAngle key (signedAngle t key (calculateChain js)) js"
    have "distanceTo (endEffector (calculateChain (innerLoop t keys ?js))) t
        \<le> distanceTo (endEffector (calculateChain ?js)) t"
      by (rule Cons.IH [OF withinLimits_applyAngle [OF Cons.prems]])
    also have "\<dots> \<le> distanceTo (endEffector (calculateChain js)) t"
      using False by (intro applyAngle_closer withinLimits_all [OF Cons.prems]) simp
    finally show ?thesis using False by (simp add: Let_def)
  qed
qed

lemma withinLimits_innerLoop: "withinLimits js \<Longrightarrow> withinLimits (innerLoop t keys js)"
  by (simp add: withinLimits_def innerLoop_withinLimit)

lemma outerLoop_closer:
  "withinLimits js \<Longrightarrow>
   distanceTo (endEffector (calculateChain (outerLoop n t js))) t
     \<le> distanceTo (endEffector (calculateChain js)) t"
proof (induction n arbitrary: js)
  case 0
  then show ?case by simp
next
  case (Suc n)
  have "distanceTo (endEffector (calculateChain (outerLoop n t (innerLoop t jointKeys js)))) t
      \<le> distanceTo (endEffector (calculateChain (innerLoop t jointKeys js))) t"
    by (rule Suc.IH [OF withinLimits_innerLoop [OF Suc.prems]])
  also have "\<dots> \<le> distanceTo (endEffector (calculateChain js)) t"
    by (rule innerLoop_closer [OF Suc.prems])
  finally show ?case by simp
qed

lemma withinLimits_solveIK: "withinLimits js \<Longrightarrow> withinLimits (solveIK t js n)"
  by (simp add: withinLimits_def solveIK_def outerLoop_withinLimit)

lemma withinLimits_repeat:
  "withinLimits js \<Longrightarrow> withinLimits (((\<lambda>j. solveIK t j n) ^^ m) js)"
  by (induction m) (simp_all add: withinLimits_solveIK)

subsection \<open>A stall at the upright configuration\<close>

lemma multiply_identity_right: "multiply q identityQ = q"
  by (cases q) (simp add: multiply_def identityQ_def)

lemma multiply_identity_left: "multiply identityQ q = q"
  by (cases q) (simp add: multiply_def identityQ_def)

lemma axisZ_angle_zero: "setFromAxisAngle (Vector3 0 0 1) 0 = identityQ"
  by (simp add: setFromAxisAngle_def identityQ_def)

lemma apply_vertical:
  "qx q = 0 \<Longrightarrow> qz q = 0 \<Longrightarrow> applyQuaternion (Vector3 0 a 0) q = Vector3 0 a 0"
  by (simp add: applyQuaternion_def Let_def)

lemma apply_axisZ_level:
  "qx q = 0 \<Longrightarrow> qz q = 0 \<Longrightarrow> vy (applyQuaternion (Vector3 0 0 1) q) = 0"
  by (simp add: applyQuaternion_def Let_def)

lemma multiply_yrot:
  "qx a = 0 \<Longrightarrow> qz a = 0 \<Longrightarrow> qx b = 0 \<Longrightarrow> qz b = 0 \<Longrightarrow>
   qx (multiply a b) = 0 \<and> qz (multiply a b) = 0"
  by (simp add: multiply_def)

lemma axisY_yrot:
  "qx (setFromAxisAngle (Vector3 0 1 0) th) = 0 \<and> qz (setFromAxisAngle (Vector3 0 1 0) th) = 0"
  by (simp add: setFromAxisAngle_def Let_def)

lemma identity_yrot: "qx identityQ = 0 \<and> qz identityQ = 0"
  by (simp add: identityQ_def)

lemma upright_chain:
  assumes "j2 js = 0" "j3 js = 0" "j5 js = 0"
  shows "positions (calculateChain js)
           = [Vector3 0 1.1 0, Vector3 0 1.1 0, Vector3 0 5.1 0, Vector3 0 6.6 0,
              Vector3 0 6.8 0, Vector3 0 7.6 0, Vector3 0 8.1 0]"
    and "endEffector (calculateChain js) = Vector3 0 8.1 0"
    and "\<forall>i < 6. qx (rotations (calculateChain js) ! i) = 0
                 \<and> qz (rotations (calculateChain js) ! i) = 0"
  using assms
  by (simp_all add: calculateChain_def Let_def axisZ_angle_zero multiply_identity_right
        multiply_identity_left apply_vertical multiply_yrot axisY_yrot add_def
        less_Suc_eq numeral_eq_Suc all_conj_distrib)


lemma normalize_vertical: "0 < a \<Longrightarrow> normalize_v (Vector3 0 a 0) = Vector3 0 1 0"
  by (simp add: normalize_v_def length_v_def lengthSq_def multiplyScalar_def)

lemma vy_normalize: "vy v = 0 \<Longrightarrow> vy (normalize_v v) = 0"
  by (simp add: normalize_v_def multiplyScalar_def)

lemma planeAngle_vertical:
  assumes "0 < a" "0 < b" "vy n = 0"
  shows "planeAngle n (Vector3 0 a 0) (Vector3 0 b 0) = 0"
proof -
  have d: "dot (Vector3 0 1 0) n = 0" using assms(3) by (simp add: dot_def)
  have p: "normalize_v (subVectors (Vector3 0 1 0) (multiplyScalar n 0)) = Vector3 0 1 0"
    by (simp add: subVectors_def multiplyScalar_def normalize_v_def length_v_def lengthSq_def)
  have ang: "angleTo (Vector3 0 1 0) (Vector3 0 1 0) = 0"
    by (simp add: angleTo_def lengthSq_def dot_def clamp_def)
  have cr: "crossVectors (Vector3 0 1 0) (Vector3 0 1 0) = Vector3 0 0 0"
    by (simp add: crossVectors_def)
  have dz: "dot (Vector3 0 0 0) n = 0" by (simp add: dot_def)
  show ?thesis
    using assms(1,2)
    by (simp add: planeAngle_def Let_def normalize_vertical d p ang cr dz)
qed

lemma signedAngle_upright:
  assumes up: "j2 js = 0" "j3 js = 0" "j5 js = 0"
    and key: "key = J2 \<or> key = J3 \<or> key = J5"
  shows "signedAngle (Vector3 0 7.9 0) key (calculateChain js) = 0"
proof -
  note ch = upright_chain [OF up]
  have rot: "qx (rotations (calculateChain js) ! i) = 0 \<and> qz (rotations (calculateChain js) ! i) = 0"
    if "i < 6" for i using ch(3) that by blast
  have lvl: "vy (normalize_v (applyQuaternion (Vector3 0 0 1) (rotations (calculateChain js) ! i))) = 0"
    if "i < 6" for i
    using rot [OF that] by (simp add: vy_normalize apply_axisZ_level)
  from key show ?thesis
  proof (elim disjE)
    assume k: "key = J2"
    show ?thesis
      using lvl [of 0]
      by (simp add: signedAngle_planeAngle k ch(1,2) axisZ_def subVectors_def
            planeAngle_vertical)
  next
    assume k: "key = J3"
    show ?thesis
      using lvl [of 1]
      by (simp add: signedAngle_planeAngle k ch(1,2) axisZ_def subVectors_def
            planeAngle_vertical)
  next
    assume k: "key = J5"
    show ?thesis
      using lvl [of 3]
      by (simp add: signedAngle_planeAngle k ch(1,2) axisZ_def subVectors_def
            planeAngle_vertical)
  qed
qed

lemma upright_step:
  assumes up: "j2 js = 0" "j3 js = 0" "j5 js = 0"
  shows "j2 (applyAngle key (signedAngle (Vector3 0 7.9 0) key (calculateChain js)) js) = 0
       \<and> j3 (applyAngle key (signedAngle (Vector3 0 7.9 0) key (calculateChain js)) js) = 0
       \<and> j5 (applyAngle key (signedAngle (Vector3 0 7.9 0) key (calculateChain js)) js) = 0"
proof (cases "key = J2 \<or> key = J3 \<or> key = J5")
  case True
  have pp: "0 < pi / 2" "0 < pi / 1.5" using pi_gt_zero by simp_all
  from True show ?thesis
    using up pp
    by (auto simp: signedAngle_upright [OF up True] applyAngle_def Let_def clamp_def)
next
  case False
  then show ?thesis
    using up by (cases key) (simp_all add: applyAngle_def Let_def)
qed

lemma upright_innerLoop:
  "j2 js = 0 \<Longrightarrow> j3 js = 0 \<Longrightarrow> j5 js = 0 \<Longrightarrow>
   j2 (innerLoop (Vector3 0 7.9 0) keys js) = 0
   \<and> j3 (innerLoop (Vector3 0 7.9 0) keys js) = 0
   \<and> j5 (innerLoop (Vector3 0 7.9 0) keys js) = 0"
proof (induction keys arbitrary: js)
  case Nil
  then show ?case by simp
next
  case (Cons key keys)
  from upright_step [OF Cons.prems, of key]
  have "j2 (innerLoop (Vector3 0 7.9 0) keys
          (applyAngle key (signedAngle (Vector3 0 7.9 0) key (calculateChain js)) js)) = 0
      \<and> j3 (innerLoop (Vector3 0 7.9 0) keys
          (applyAngle key (signedAngle (Vector3 0 7.9 0) key (calculateChain js)) js)) = 0
      \<and> j5 (innerLoop (Vector3 0 7.9 0) keys
          (applyAngle key (signedAngle (Vector3 0 7.9 0) key (calculateChain js)) js)) = 0"
    by (intro Cons.IH) simp_all
  with Cons.prems Cons.IH [OF Cons.prems] show ?case
    by (simp add: Let_def)
qed

lemma upright_outerLoop:
  "j2 js = 0 \<Longrightarrow> j3 js = 0 \<Longrightarrow> j5 js = 0 \<Longrightarrow>
   j2 (outerLoop n (Vector3 0 7.9 0) js) = 0
   \<and> j3 (outerLoop n (Vector3 0 7.9 0) js) = 0
   \<and> j5 (outerLoop n (Vector3 0 7.9 0) js) = 0"
proof (induction n arbitrary: js)
  case 0
  then show ?case by simp
next
  case (Suc n)
  from upright_innerLoop [OF Suc.prems, of jointKeys] show ?case
    by (simp add: Suc.IH)
qed

lemma upright_repeat:
  "j2 (((\<lambda>j. solveIK (Vector3 0 7.9 0) j 5) ^^ m) INITIAL_JOINTS) = 0
   \<and> j3 (((\<lambda>j. solveIK (Vector3 0 7.9 0) j 5) ^^ m) INITIAL_JOINTS) = 0
   \<and> j5 (((\<lambda>j. solveIK (Vector3 0 7.9 0) j 5) ^^ m) INITIAL_JOINTS) = 0"
proof (induction m)
  case 0
  show ?case by (simp add: INITIAL_JOINTS_def)
next
  case (Suc m)
  then show ?case
    using upright_outerLoop
      [of "((\<lambda>j. solveIK (Vector3 0 7.9 0) j 5) ^^ m) INITIAL_JOINTS" "nat 5"]
    by (simp add: solveIK_def)
qed

lemma stall_distance:
  "distanceTo (endEffector (calculateChain
      (((\<lambda>j. solveIK (Vector3 0 7.9 0) j 5) ^^ m) INITIAL_JOINTS))) (Vector3 0 7.9 0) = 0.2"
proof -
  have "endEffector (calculateChain
      (((\<lambda>j. solveIK (Vector3 0 7.9 0) j 5) ^^ m) INITIAL_JOINTS)) = Vector3 0 8.1 0"
    using upright_repeat [of m] by (intro upright_chain(2)) simp_all
  then show ?thesis
    by (simp add: distanceTo_along_y)
qed


lemma sqrt_85: "sqrt (1 + (13 / 84)\<^sup>2) = (85 / 84 :: real)"
proof -
  have "1 + (13 / 84)\<^sup>2 = ((85 / 84)\<^sup>2 :: real)" by (simp add: power2_eq_square)
  then show ?thesis by (simp only: real_sqrt_abs)
qed

lemma sqrt_17: "sqrt (1 + (8 / 15)\<^sup>2) = (17 / 15 :: real)"
proof -
  have "1 + (8 / 15)\<^sup>2 = ((17 / 15)\<^sup>2 :: real)" by (simp add: power2_eq_square)
  then show ?thesis by (simp only: real_sqrt_abs)
qed

lemma trig_13_84: "sin (arctan (13 / 84)) = 13 / 85" "cos (arctan (13 / 84)) = 84 / 85"
  by (simp_all add: sin_arctan cos_arctan sqrt_85)

lemma trig_8_15: "sin (arctan (8 / 15)) = 8 / 17" "cos (arctan (8 / 15)) = 15 / 17"
  by (simp_all add: sin_arctan cos_arctan sqrt_17)

lemma reachPose_tip: "endEffector (calculateChain reachPose) = Vector3 0 7.9 0"
  by (simp add: reachPose_def calculateChain_def Let_def multiply_identity_left
        multiply_identity_right apply_multiply unit_simps rodrigues_axisZ rodrigues_def
        trig_13_84 trig_8_15 add_def multiplyScalar_def crossVectors_def dot_def)

lemma arctan_within: "- (pi / 2) \<le> arctan x \<and> arctan x \<le> pi / 2"
  using arctan_lbound [of x] arctan_ubound [of x] by simp

lemma reachPose_limits: "withinLimits reachPose"
proof -
  have p: "0 < pi" by (rule pi_gt_zero)
  have a: "- (pi / 2) \<le> arctan x \<and> arctan x \<le> pi / 2" for x by (rule arctan_within)
  have b: "- (pi / 2) \<le> - arctan x \<and> - arctan x \<le> pi / 2" for x using a [of x] by simp
  have c: "- (pi / 1.5) \<le> arctan x \<and> arctan x \<le> pi / 1.5" for x
    using a [of x] p by (simp add: field_simps)
  show ?thesis
    using p a b c
    by (simp add: withinLimits_def withinLimit_def reachPose_def)
qed

subsection \<open>Repeated calls\<close>

text \<open>
  C3 as stated fails in its second part.  The target (0, 7.9, 0) lies straight above
  the base and is reached by \<open>reachPose\<close>, a configuration within the joint limits.
  Started at the all-zero configuration, which is within the limits too, the solver
  finds the tip, every pivot and the target on one vertical line: the pitch joints
  \<open>j2\<close>, \<open>j3\<close> and \<open>j5\<close> get the correction 0, the roll joints \<open>j1\<close> and \<open>j4\<close>
  turn without moving the tip, and after any number of calls of five iterations the
  distance is still 0.2.
\<close>

theorem solveIK_stall_counterexample:
  "withinLimits INITIAL_JOINTS
   \<and> withinLimits reachPose
   \<and> endEffector (calculateChain reachPose) = Vector3 0 7.9 0
   \<and> \<not> (\<exists>m. distanceTo (endEffector (calculateChain
              (((\<lambda>j. solveIK (Vector3 0 7.9 0) j 5) ^^ m) INITIAL_JOINTS)))
            (Vector3 0 7.9 0) < 0.01)"
proof -
  have "withinLimits INITIAL_JOINTS"
    using pi_gt_zero by (simp add: withinLimits_def withinLimit_def INITIAL_JOINTS_def)
  then show ?thesis
    by (simp add: reachPose_limits reachPose_tip stall_distance)
qed

text \<open>
  C3, amended.  For every target position, reachable or not, and every current joint
  configuration within the joint limits, repeatedly calling \<open>solveIK\<close> with 5
  iterations and feeding each result back in never increases the distance from the
  forward-kinematics tip position to the target: the distance after call \<open>m + 1\<close> is
  at most the distance after call \<open>m\<close>.  That the distance ever falls below 0.01 is
  not part of the amended claim.
\<close>

theorem solveIK_never_farther:
  assumes "withinLimits js"
  shows "distanceTo (endEffector (calculateChain (((\<lambda>j. solveIK t j 5) ^^ Suc m) js))) t
       \<le> distanceTo (endEffector (calculateChain (((\<lambda>j. solveIK t j 5) ^^ m) js))) t"
proof -
  have "withinLimits (((\<lambda>j. solveIK t j 5) ^^ m) js)"
    using assms by (rule withinLimits_repeat)
  then have "distanceTo (endEffector (calculateChain
        (outerLoop (nat 5) t (((\<lambda>j. solveIK t j 5) ^^ m) js)))) t
      \<le> distanceTo (endEffector (calculateChain (((\<lambda>j. solveIK t j 5) ^^ m) js))) t"
    by (rule outerLoop_closer)
  then show ?thesis by (simp add: solveIK_def)
qed

theorem solveIK_never_farther_witness:
  "withinLimits INITIAL_JOINTS
   \<and> distanceTo (endEffector (calculateChain
          (((\<lambda>j. solveIK (Vector3 4 2 0) j 5) ^^ Suc 0) INITIAL_JOINTS))) (Vector3 4 2 0)
       \<le> distanceTo (endEffector (calculateChain
          (((\<lambda>j. solveIK (Vector3 4 2 0) j 5) ^^ 0) INITIAL_JOINTS))) (Vector3 4 2 0)"
proof -
  have h: "withinLimits INITIAL_JOINTS"
    using pi_gt_zero by (simp add: withinLimits_def withinLimit_def INITIAL_JOINTS_def)
  show ?thesis
    using h solveIK_never_farther [OF h, where t = "Vector3 4 2 0" and m = 0] by simp
qed

section \<open>The trigger without an object in the pick area\<close>

text \<open>
  C6.  When the trigger fires and no scene object has an x-coordinate above 0, the
  effect does nothing but record the trigger and call the completion callback once:
  the phase is as before (IDLE stays IDLE, APPROACH is not entered), no target object
  is selected and no waypoint is written.  Running the effect again on the same
  trigger value changes nothing, so the callback is called exactly once.
\<close>

theorem trigger_no_object:
  assumes "runSequenceTrigger s > lastTrigger s"
    and "\<forall>b \<in> set (boxes s). \<not> pos0 b > 0"
  shows "triggerEffect now s =
           s\<lparr>lastTrigger := runSequenceTrigger s, completions := completions s + 1\<rparr>
         \<and> completions (triggerEffect now s) = completions s + 1
         \<and> phase (triggerEffect now s) = phase s
         \<and> targetBoxId (triggerEffect now s) = targetBoxId s
         \<and> startPos (triggerEffect now s) = startPos s
         \<and> endPos (triggerEffect now s) = endPos s
         \<and> triggerEffect now' (triggerEffect now s) = triggerEffect now s"
proof -
  from assms(2) have none: "find (\<lambda>b. pos0 b > 0) (boxes s) = None"
    by (simp add: find_None_iff)
  have eq: "triggerEffect now s =
      s\<lparr>lastTrigger := runSequenceTrigger s, completions := completions s + 1\<rparr>"
    using assms(1) none by (simp add: triggerEffect_def)
  have again: "triggerEffect now' (triggerEffect now s) = triggerEffect now s"
    unfolding eq by (simp add: triggerEffect_def)
  show ?thesis using eq again by simp
qed

theorem trigger_no_object_witness:
  "lastTrigger droppedScene < runSequenceTrigger droppedScene
   \<and> \<not> pos0 (boxes droppedScene ! 0) > 0
   \<and> phase droppedScene = IDLE
   \<and> phase (triggerEffect 0 droppedScene) = IDLE
   \<and> completions (triggerEffect 0 droppedScene) = completions droppedScene + 1
   \<and> targetBoxId (triggerEffect 0 droppedScene) = None"
proof -
  have a: "runSequenceTrigger droppedScene > lastTrigger droppedScene"
    by (simp add: droppedScene_def initialSim_def)
  have b: "\<forall>b \<in> set (boxes droppedScene). \<not> pos0 b > 0"
    by (simp add: droppedScene_def pos0_def)
  show ?thesis using a trigger_no_object [OF a b, of 0 0]
    by (simp add: droppedScene_def initialSim_def pos0_def)
qed

section \<open>The gripper flag during a sequence run\<close>

lemma gripperPhysics_gripperOpen [simp]:
  "gripperOpen (gripperPhysics tw g bxs s) = gripperOpen s"
  by (simp add: gripperPhysics_def Let_def)

lemma gripperPhysics_phase [simp]:
  "phase (gripperPhysics tw g bxs s) = phase s"
  by (simp add: gripperPhysics_def Let_def)

lemma useFrame_gripperOpen:
  "gripperOpen (useFrame now tip s) = gripperOpen (sequenceLogic now s)"
  by (simp add: useFrame_def Let_def split: option.splits)

lemma useFrame_phase: "phase (useFrame now tip s) = phase (sequenceLogic now s)"
  by (simp add: useFrame_def Let_def split: option.splits)

lemma sequenceLogic_gripper_inv:
  "gripperOpen s = (phase s \<notin> {GRIP, LIFT_PICK, TRAVEL, DESCEND_DROP}) \<Longrightarrow>
   gripperOpen (sequenceLogic now s) =
     (phase (sequenceLogic now s) \<notin> {GRIP, LIFT_PICK, TRAVEL, DESCEND_DROP})"
  by (cases "phase s")
     (auto simp: sequenceLogic_def phaseTransition_def Let_def split: option.splits)

lemma sequenceLogic_gripper_write:
  "gripperOpen (sequenceLogic now s) =
     (if phase s = DESCEND_PICK \<and> phase (sequenceLogic now s) = GRIP then False
      else if phase s = DESCEND_DROP \<and> phase (sequenceLogic now s) = RELEASE then True
      else gripperOpen s)"
  by (cases "phase s")
     (auto simp: sequenceLogic_def phaseTransition_def Let_def split: option.splits)

lemma triggerEffect_start:
  "runSequenceTrigger s > lastTrigger s \<Longrightarrow>
   find (\<lambda>b. pos0 b > 0) (boxes s) = Some availableBox \<Longrightarrow>
   gripperOpen (triggerEffect now s) \<and> phase (triggerEffect now s) = APPROACH"
  by (simp add: triggerEffect_def)

lemma triggerEffect_gripper_write:
  "gripperOpen (triggerEffect now s) =
     (if lastTrigger s < runSequenceTrigger s \<and> find (\<lambda>b. pos0 b > 0) (boxes s) \<noteq> None
      then True else gripperOpen s)"
  by (simp add: triggerEffect_def Let_def split: option.splits)

lemma in_run_gripper:
  "in_run s \<Longrightarrow> gripperOpen s = (phase s \<notin> {GRIP, LIFT_PICK, TRAVEL, DESCEND_DROP})"
proof (induction rule: in_run.induct)
  case (start s availableBox now)
  then show ?case using triggerEffect_start [of s availableBox now] by simp
next
  case (frame s now tip)
  then show ?case
    using sequenceLogic_gripper_inv [of s now]
    by (simp only: useFrame_gripperOpen useFrame_phase)
qed

text \<open>
  C4 as stated fails: the trigger effect itself writes the flag.  Triggered in IDLE
  with the gripper closed and an object in the pick area, it enters APPROACH and sets
  the flag to open.
\<close>

theorem sequencer_gripper_counterexample:
  "phase closedGripperSim = IDLE \<and> \<not> gripperOpen closedGripperSim \<and>
   phase (triggerEffect 0 closedGripperSim) = APPROACH \<and>
   gripperOpen (triggerEffect 0 closedGripperSim)"
  by (simp add: closedGripperSim_def initialSim_def triggerEffect_def pos0_def)

text \<open>
  C4, amended.  During a sequence run the sequencer writes the gripper-open flag at
  three points: the trigger effect sets it to open when it starts the sequence (IDLE
  to APPROACH), a frame sets it to closed on entering GRIP and to open on entering
  RELEASE; no other frame changes it.  So in every state of the run the flag is false
  exactly in the phases from GRIP entry up to RELEASE entry (GRIP, LIFT_PICK, TRAVEL,
  DESCEND_DROP) and true elsewhere.
\<close>

theorem sequencer_gripper_flag:
  assumes "in_run s"
  shows "gripperOpen s = (phase s \<notin> {GRIP, LIFT_PICK, TRAVEL, DESCEND_DROP})
    \<and> gripperOpen (useFrame now tip s) =
        (if phase s = DESCEND_PICK \<and> phase (useFrame now tip s) = GRIP then False
         else if phase s = DESCEND_DROP \<and> phase (useFrame now tip s) = RELEASE then True
         else gripperOpen s)
    \<and> gripperOpen (triggerEffect now s) =
        (if lastTrigger s < runSequenceTrigger s \<and> find (\<lambda>b. pos0 b > 0) (boxes s) \<noteq> None
         then True else gripperOpen s)"
  using in_run_gripper [OF assms] sequenceLogic_gripper_write [of now s]
    triggerEffect_gripper_write [of now s]
  by (simp only: useFrame_gripperOpen useFrame_phase)

theorem sequencer_gripper_flag_witness:
  "in_run (triggerEffect 0 closedGripperSim)
   \<and> phase (triggerEffect 0 closedGripperSim) = APPROACH
   \<and> gripperOpen (triggerEffect 0 closedGripperSim)"
proof -
  have t: "runSequenceTrigger closedGripperSim > lastTrigger closedGripperSim"
    by (simp add: closedGripperSim_def initialSim_def)
  have f: "find (\<lambda>b. pos0 b > 0) (boxes closedGripperSim)
      = Some \<lparr>obj_id = ''1'', position = (4, BOX_SIZE / 2, 0), color = ''#ef4444'',
              shape = Box\<rparr>"
    by (simp add: closedGripperSim_def initialSim_def pos0_def)
  have r: "in_run (triggerEffect 0 closedGripperSim)"
    by (rule in_run.start [OF t f])
  have p: "phase (triggerEffect 0 closedGripperSim) = APPROACH"
    using triggerEffect_start [OF t f] by simp
  show ?thesis
    using r p sequencer_gripper_flag [OF r, of 0 None] by simp
qed

section \<open>The dwell in GRIP\<close>

lemmas frame_defs = useFrame_def sequenceLogic_def phaseTransition_def gripperPhysics_def
  Let_def lerpVectors_def truthy_def pinBox_def fallBox_def groundOffset_def BOX_SIZE_def
  pos0_def pos1_def pos2_def boxPos_def distanceTo_along_y

text \<open>
  C5 does not hold in the code.  The run below starts when the trigger fires while
  object 1 is held at height 0.8 in the pick area: the trigger opens the gripper and
  aims APPROACH at height 2.8, the object falls to its resting height 0.4 in the next
  two frames, and DESCEND_PICK, entered at 500 ms, runs from height 2.8 to height 0.6,
  a distance of 2.2, so its duration is 0.55 s.  GRIP is entered at 1050 ms and keeps
  these waypoints.  At 1570 ms, 0.52 s after GRIP entry, the phase is still GRIP; it
  becomes LIFT_PICK only at 1600 ms, when 0.55 s have elapsed.
\<close>

theorem grip_dwell_follows_stale_waypoints:
  "phase (runFrames [(250, Some (Vector3 4 1 0)), (400, Some (Vector3 4 1 0)),
                     (500, Some (Vector3 4 1 0)), (1050, Some (Vector3 4 1 0))]
            (triggerEffect 0 heldAloftSim)) = GRIP
   \<and> phaseStartTime (runFrames [(250, Some (Vector3 4 1 0)), (400, Some (Vector3 4 1 0)),
                     (500, Some (Vector3 4 1 0)), (1050, Some (Vector3 4 1 0))]
            (triggerEffect 0 heldAloftSim)) = 1050
   \<and> phase (runFrames [(250, Some (Vector3 4 1 0)), (400, Some (Vector3 4 1 0)),
                     (500, Some (Vector3 4 1 0)), (1050, Some (Vector3 4 1 0)),
                     (1570, Some (Vector3 4 1 0))]
            (triggerEffect 0 heldAloftSim)) = GRIP
   \<and> phase (runFrames [(250, Some (Vector3 4 1 0)), (400, Some (Vector3 4 1 0)),
                     (500, Some (Vector3 4 1 0)), (1050, Some (Vector3 4 1 0)),
                     (1570, Some (Vector3 4 1 0)), (1600, Some (Vector3 4 1 0))]
            (triggerEffect 0 heldAloftSim)) = LIFT_PICK"
  by (simp add: runFrames_def heldAloftSim_def initialSim_def triggerEffect_def frame_defs)

section \<open>Grasping\<close>

lemma grabLoop_none:
  "\<forall>b \<in> set bs. \<not> distanceTo p (boxPos b) < m \<Longrightarrow> grabLoop p bs (c, m) = (c, m)"
  by (induction bs) (simp_all add: Let_def)

lemma grabLoop_some:
  "\<exists>b \<in> set bs. distanceTo p (boxPos b) < m \<Longrightarrow>
   \<exists>b \<in> set bs. grabLoop p bs (c, m) = (Some (obj_id b), distanceTo p (boxPos b))
      \<and> distanceTo p (boxPos b) < m
      \<and> (\<forall>b' \<in> set bs. distanceTo p (boxPos b) \<le> distanceTo p (boxPos b'))"
proof (induction bs arbitrary: c m)
  case Nil
  then show ?case by simp
next
  case (Cons a bs)
  let ?d = "\<lambda>b. distanceTo p (boxPos b)"
  show ?case
  proof (cases "?d a < m")
    case True
    show ?thesis
    proof (cases "\<exists>b \<in> set bs. ?d b < ?d a")
      case True
      from Cons.IH [OF True, of "Some (obj_id a)"] obtain b where
        b: "b \<in> set bs" "grabLoop p bs (Some (obj_id a), ?d a) = (Some (obj_id b), ?d b)"
           "?d b < ?d a" "\<forall>b' \<in> set bs. ?d b \<le> ?d b'"
        by blast
      with \<open>?d a < m\<close> show ?thesis
        by (intro bexI [of _ b]) (auto simp: Let_def)
    next
      case False
      then have "grabLoop p bs (Some (obj_id a), ?d a) = (Some (obj_id a), ?d a)"
        by (intro grabLoop_none) simp
      with \<open>?d a < m\<close> False show ?thesis
        by (intro bexI [of _ a]) (auto simp: Let_def not_less)
    qed
  next
    case False
    with Cons.prems have ex: "\<exists>b \<in> set bs. ?d b < m" by auto
    from Cons.IH [OF ex, of c] obtain b where
      b: "b \<in> set bs" "grabLoop p bs (c, m) = (Some (obj_id b), ?d b)"
         "?d b < m" "\<forall>b' \<in> set bs. ?d b \<le> ?d b'"
      by blast
    with False show ?thesis
      by (intro bexI [of _ b]) (auto simp: Let_def not_less)
  qed
qed

lemma sequenceLogic_tracker_fields [simp]:
  "heldBoxId (sequenceLogic now s) = heldBoxId s"
  "prevGripperOpen (sequenceLogic now s) = prevGripperOpen s"
  "boxes (sequenceLogic now s) = boxes s"
  by (cases "phase s";
      simp add: sequenceLogic_def phaseTransition_def Let_def split: option.splits)+

lemma useFrame_held:
  "heldBoxId (useFrame now (Some tw) s) =
     (if prevGripperOpen s \<and> \<not> gripperOpen s then
        (if truthy (fst (grabLoop (Vector3 (vx tw) (vy tw - 0.2) (vz tw)) (boxes s) (None, 1.2)))
         then fst (grabLoop (Vector3 (vx tw) (vy tw - 0.2) (vz tw)) (boxes s) (None, 1.2))
         else heldBoxId s)
      else if \<not> prevGripperOpen s \<and> gripperOpen s then None
      else heldBoxId s)"
  by (simp add: useFrame_def gripperPhysics_def Let_def)

lemma useFrame_boxes:
  "boxes (useFrame now (Some tw) s) =
     (if truthy (heldBoxId (useFrame now (Some tw) s))
      then map (pinBox (heldBoxId (useFrame now (Some tw) s))
                  (Vector3 (vx tw) (vy tw - 0.2) (vz tw))) (boxes s)
      else map fallBox (boxes s))"
  by (simp add: useFrame_def gripperPhysics_def Let_def)

lemma filter_id_distinct:
  "distinct (map obj_id bs) \<Longrightarrow> length (filter (\<lambda>b. Some (obj_id b) = h) bs) \<le> 1"
proof (cases h)
  case None
  then show ?thesis by simp
next
  case (Some i)
  assume d: "distinct (map obj_id bs)"
  have "length (filter (\<lambda>b. obj_id b = i) bs) \<le> 1"
    using d
  proof (induction bs)
    case Nil
    then show ?case by simp
  next
    case (Cons a bs)
    then show ?case
      by (auto simp: filter_empty_conv image_iff)
  qed
  then show ?thesis using Some by simp
qed

text \<open>
  C7.  On a frame that sees the gripper flag go from open to closed, with the reference
  point the tip position lowered by 0.2: if some object is closer to the reference
  point than 1.2, the object marked held is one of minimal distance among all objects,
  and that distance is below 1.2; if no object is closer than 1.2, nothing is newly
  marked.  The mark is a single identifier, so with distinct identifiers at most one
  object is held.  Object identifiers are non-empty strings, as the application
  generates them.
\<close>

theorem grab_nearest_within_threshold:
  assumes "prevGripperOpen s" and "\<not> gripperOpen s"
    and "\<forall>b \<in> set (boxes s). obj_id b \<noteq> []"
  shows "((\<exists>b \<in> set (boxes s).
             distanceTo (Vector3 (vx tw) (vy tw - 0.2) (vz tw)) (boxPos b) < 1.2) \<longrightarrow>
          (\<exists>b \<in> set (boxes s).
             heldBoxId (useFrame now (Some tw) s) = Some (obj_id b)
             \<and> distanceTo (Vector3 (vx tw) (vy tw - 0.2) (vz tw)) (boxPos b) < 1.2
             \<and> (\<forall>b' \<in> set (boxes s).
                   distanceTo (Vector3 (vx tw) (vy tw - 0.2) (vz tw)) (boxPos b)
                   \<le> distanceTo (Vector3 (vx tw) (vy tw - 0.2) (vz tw)) (boxPos b'))))
       \<and> ((\<forall>b \<in> set (boxes s).
             \<not> distanceTo (Vector3 (vx tw) (vy tw - 0.2) (vz tw)) (boxPos b) < 1.2) \<longrightarrow>
          heldBoxId (useFrame now (Some tw) s) = heldBoxId s)
       \<and> (distinct (map obj_id (boxes s)) \<longrightarrow>
          length (filter (\<lambda>b. Some (obj_id b) = heldBoxId (useFrame now (Some tw) s))
                    (boxes s)) \<le> 1)"
proof (intro conjI impI)
  let ?p = "Vector3 (vx tw) (vy tw - 0.2) (vz tw)"
  assume "\<exists>b \<in> set (boxes s). distanceTo ?p (boxPos b) < 1.2"
  from grabLoop_some [OF this, of None] obtain b where
    b: "b \<in> set (boxes s)"
       "grabLoop ?p (boxes s) (None, 1.2) = (Some (obj_id b), distanceTo ?p (boxPos b))"
       "distanceTo ?p (boxPos b) < 1.2"
       "\<forall>b' \<in> set (boxes s). distanceTo ?p (boxPos b) \<le> distanceTo ?p (boxPos b')"
    by blast
  from b(1) assms(3) have "obj_id b \<noteq> []" by simp
  with b(2) assms(1,2) have "heldBoxId (useFrame now (Some tw) s) = Some (obj_id b)"
    by (simp add: useFrame_held truthy_def)
  with b show "\<exists>b \<in> set (boxes s).
      heldBoxId (useFrame now (Some tw) s) = Some (obj_id b)
      \<and> distanceTo ?p (boxPos b) < 1.2
      \<and> (\<forall>b' \<in> set (boxes s). distanceTo ?p (boxPos b) \<le> distanceTo ?p (boxPos b'))"
    by blast
next
  let ?p = "Vector3 (vx tw) (vy tw - 0.2) (vz tw)"
  assume "\<forall>b \<in> set (boxes s). \<not> distanceTo ?p (boxPos b) < 1.2"
  then have "grabLoop ?p (boxes s) (None, 1.2) = (None, 1.2)"
    by (rule grabLoop_none)
  with assms(1,2) show "heldBoxId (useFrame now (Some tw) s) = heldBoxId s"
    by (simp add: useFrame_held truthy_def)
next
  assume "distinct (map obj_id (boxes s))"
  then show "length (filter (\<lambda>b. Some (obj_id b) = heldBoxId (useFrame now (Some tw) s))
                    (boxes s)) \<le> 1"
    by (rule filter_id_distinct)
qed

theorem grab_nearest_within_threshold_witness:
  "prevGripperOpen graspScene \<and> \<not> gripperOpen graspScene
   \<and> obj_id (boxes graspScene ! 0) \<noteq> [] \<and> obj_id (boxes graspScene ! 1) \<noteq> []
   \<and> distanceTo (Vector3 4 (0.6 - 0.2) 0) (boxPos (boxes graspScene ! 0)) = 2
   \<and> distanceTo (Vector3 4 (0.6 - 0.2) 0) (boxPos (boxes graspScene ! 1)) = 0.5
   \<and> heldBoxId (useFrame 0 (Some (Vector3 4 0.6 0)) graspScene) = Some ''2''"
proof -
  have a: "prevGripperOpen graspScene" by (simp add: graspScene_def initialSim_def)
  have b: "\<not> gripperOpen graspScene" by (simp add: graspScene_def)
  have c: "\<forall>b \<in> set (boxes graspScene). obj_id b \<noteq> []" by (simp add: graspScene_def)
  have d1: "distanceTo (Vector3 4 (0.6 - 0.2) 0) (boxPos (boxes graspScene ! 0)) = 2"
    by (simp add: graspScene_def boxPos_def pos0_def pos1_def pos2_def distanceTo_along_z)
  have d2: "distanceTo (Vector3 4 (0.6 - 0.2) 0) (boxPos (boxes graspScene ! 1)) = 0.5"
    by (simp add: graspScene_def boxPos_def pos0_def pos1_def pos2_def distanceTo_along_z)
  have bs: "set (boxes graspScene) = {boxes graspScene ! 0, boxes graspScene ! 1}"
    by (simp add: graspScene_def)
  have ids: "obj_id (boxes graspScene ! 0) = ''1''" "obj_id (boxes graspScene ! 1) = ''2''"
    by (simp_all add: graspScene_def)
  from grab_nearest_within_threshold [OF a b c, of "Vector3 4 0.6 0" 0]
  have "heldBoxId (useFrame 0 (Some (Vector3 4 0.6 0)) graspScene) = Some ''2''"
    unfolding bs using d1 d2 ids by simp
  with a b d1 d2 ids show ?thesis by simp
qed

section \<open>Falling and carrying\<close>

lemma useFrame_held_nonempty:
  "heldBoxId s \<noteq> Some [] \<Longrightarrow> heldBoxId (useFrame now (Some tw) s) \<noteq> Some []"
  by (auto simp: useFrame_held truthy_def split: option.splits if_splits)

lemma fallBox_fields:
  "obj_id (fallBox b) = obj_id b \<and> shape (fallBox b) = shape b
   \<and> color (fallBox b) = color b
   \<and> pos0 (fallBox b) = pos0 b \<and> pos2 (fallBox b) = pos2 b
   \<and> pos1 (fallBox b) =
       (if pos1 b > groundOffset b + 0.01 then max (groundOffset b) (pos1 b - 0.2)
        else pos1 b)"
  by (simp add: fallBox_def Let_def pos0_def pos1_def pos2_def)

lemma fallBox_not_below:
  "pos1 b \<ge> groundOffset b \<Longrightarrow> pos1 (fallBox b) \<ge> groundOffset b"
  by (simp add: fallBox_def Let_def pos1_def)

text \<open>
  C8.  On a frame after which no object is held, every object is replaced by its
  \<open>fallBox\<close> image: an object whose height exceeds its resting height (\<open>BOX_SIZE / 2\<close>
  for box and cylinder, \<open>BOX_SIZE / 1.5\<close> for sphere, with \<open>BOX_SIZE = 0.8\<close>) by more
  than 0.01 gets the height \<open>max resting (height - 0.2)\<close> and is otherwise unchanged;
  any other object is unchanged; an object at or above its resting height stays so.
  A box at height 3 has height \<open>3 - 0.2 n\<close> after \<open>n \<le> 13\<close> frames, which is 0.4 at
  \<open>n = 13\<close>, and height 0.4 after every later frame.
\<close>

theorem gravity_when_nothing_held:
  assumes "heldBoxId (useFrame now (Some tw) s) = None"
  shows "boxes (useFrame now (Some tw) s) = map fallBox (boxes s)
    \<and> (\<forall>b. groundOffset b = (if shape b = Sphere then BOX_SIZE / 1.5 else BOX_SIZE / 2)
           \<and> BOX_SIZE = 0.8
           \<and> obj_id (fallBox b) = obj_id b \<and> shape (fallBox b) = shape b
           \<and> color (fallBox b) = color b
           \<and> pos0 (fallBox b) = pos0 b \<and> pos2 (fallBox b) = pos2 b
           \<and> pos1 (fallBox b) =
               (if pos1 b > groundOffset b + 0.01 then max (groundOffset b) (pos1 b - 0.2)
                else pos1 b)
           \<and> (pos1 b \<ge> groundOffset b \<longrightarrow> pos1 (fallBox b) \<ge> groundOffset b))
    \<and> (\<forall>n. pos1 ((fallBox ^^ n)
                \<lparr>obj_id = i, position = (a, 3, c), color = col, shape = Box\<rparr>)
             = (if n \<le> 13 then 3 - 0.2 * real n else 0.4))"
proof -
  have frame: "boxes (useFrame now (Some tw) s) = map fallBox (boxes s)"
    using assms by (simp add: useFrame_boxes truthy_def)
  have each: "groundOffset b = (if shape b = Sphere then BOX_SIZE / 1.5 else BOX_SIZE / 2)
           \<and> BOX_SIZE = 0.8
           \<and> obj_id (fallBox b) = obj_id b \<and> shape (fallBox b) = shape b
           \<and> color (fallBox b) = color b
           \<and> pos0 (fallBox b) = pos0 b \<and> pos2 (fallBox b) = pos2 b
           \<and> pos1 (fallBox b) =
               (if pos1 b > groundOffset b + 0.01 then max (groundOffset b) (pos1 b - 0.2)
                else pos1 b)
           \<and> (pos1 b \<ge> groundOffset b \<longrightarrow> pos1 (fallBox b) \<ge> groundOffset b)" for b
    using fallBox_fields [of b] fallBox_not_below [of b]
    by (simp add: groundOffset_def BOX_SIZE_def)
  have step: "shape (fallBox b) = Box \<and> pos1 (fallBox b) = 0.4 + 0.2 * real (k - 1)"
    if "shape b = Box" "pos1 b = 0.4 + 0.2 * real k" for k b
    using that
    by (cases k)
       (simp_all add: fallBox_def groundOffset_def BOX_SIZE_def Let_def pos1_def
          pos0_def pos2_def max_def add_divide_distrib)
  have iter: "shape ((fallBox ^^ n) b) = Box
      \<and> pos1 ((fallBox ^^ n) b) = 0.4 + 0.2 * real (k - n)"
    if "shape b = Box" "pos1 b = 0.4 + 0.2 * real k" for n k b
  proof (induction n)
    case 0
    from that show ?case by simp
  next
    case (Suc n)
    from Suc.IH step [of "(fallBox ^^ n) b" "k - n"]
    show ?case by simp
  qed
  have drop: "pos1 ((fallBox ^^ n)
        \<lparr>obj_id = i, position = (a, 3, c), color = col, shape = Box\<rparr>)
      = (if n \<le> 13 then 3 - 0.2 * real n else 0.4)" for n
  proof -
    have "pos1 ((fallBox ^^ n)
          \<lparr>obj_id = i, position = (a, 3, c), color = col, shape = Box\<rparr>)
        = 0.4 + 0.2 * real (13 - n)"
      using iter [of "\<lparr>obj_id = i, position = (a, 3, c), color = col, shape = Box\<rparr>" 13 n]
      by (simp add: pos1_def)
    also have "\<dots> = (if n \<le> 13 then 3 - 0.2 * real n else 0.4)"
      by (simp add: of_nat_diff field_simps)
    finally show ?thesis .
  qed
  from frame each drop show ?thesis by blast
qed

theorem gravity_when_nothing_held_witness:
  "heldBoxId (useFrame 0 (Some (Vector3 0 8.1 0)) airborneScene) = None
   \<and> boxes (useFrame 0 (Some (Vector3 0 8.1 0)) airborneScene)
       = [\<lparr>obj_id = ''1'', position = (4, 2.8, 0), color = ''#ef4444'', shape = Box\<rparr>]"
proof -
  have h: "heldBoxId (useFrame 0 (Some (Vector3 0 8.1 0)) airborneScene) = None"
    by (simp add: airborneScene_def initialSim_def useFrame_held)
  show ?thesis
    using h gravity_when_nothing_held [OF h, THEN conjunct1]
    by (simp add: airborneScene_def initialSim_def fallBox_def groundOffset_def BOX_SIZE_def
          pos0_def pos1_def pos2_def Let_def)
qed

text \<open>
  C10.  On a frame after which an object is held, the tracker rewrites the position of
  the object carrying the held identifier to the gripper reference point and leaves
  every other object as it was: the fall is applied to no object.
\<close>

theorem held_tick_moves_only_held:
  assumes "heldBoxId (useFrame now (Some tw) s) = Some h"
    and "heldBoxId s \<noteq> Some []"
  shows "boxes (useFrame now (Some tw) s) =
           map (\<lambda>b. if obj_id b = h
                    then b\<lparr>position := (vx tw, vy tw - 0.2, vz tw)\<rparr> else b) (boxes s)
    \<and> length (boxes (useFrame now (Some tw) s)) = length (boxes s)
    \<and> (\<forall>k < length (boxes s). obj_id (boxes s ! k) \<noteq> h \<longrightarrow>
           boxes (useFrame now (Some tw) s) ! k = boxes s ! k)"
proof -
  from useFrame_held_nonempty [OF assms(2), of now tw] assms(1) have "h \<noteq> []" by auto
  then have eq: "boxes (useFrame now (Some tw) s) =
           map (\<lambda>b. if obj_id b = h
                    then b\<lparr>position := (vx tw, vy tw - 0.2, vz tw)\<rparr> else b) (boxes s)"
    using assms(1) by (simp add: useFrame_boxes truthy_def pinBox_def)
  show ?thesis unfolding eq by simp
qed

theorem held_tick_moves_only_held_witness:
  "heldBoxId (useFrame 0 (Some (Vector3 4 1.2 0)) carryScene) = Some ''1''
   \<and> heldBoxId carryScene \<noteq> Some []
   \<and> boxes (useFrame 0 (Some (Vector3 4 1.2 0)) carryScene) ! 1
       = \<lparr>obj_id = ''2'', position = (4, 3, 1.5), color = ''#3b82f6'', shape = Box\<rparr>
   \<and> groundOffset (boxes carryScene ! 1) + 0.01 < pos1 (boxes carryScene ! 1)"
proof -
  have h: "heldBoxId (useFrame 0 (Some (Vector3 4 1.2 0)) carryScene) = Some ''1''"
    by (simp add: carryScene_def initialSim_def useFrame_held)
  have n: "heldBoxId carryScene \<noteq> Some []" by (simp add: carryScene_def)
  show ?thesis
    using h n held_tick_moves_only_held [OF h n, THEN conjunct1]
    by (simp add: carryScene_def initialSim_def groundOffset_def BOX_SIZE_def pos1_def)
qed

end
